theory Spec2Isabelle
  imports Complex_Main "HOL-Library.AList"
begin

section \<open>Python values, errors and containers\<close>

text \<open>
  The constraint module \<^verbatim>\<open>oemof/solph/linear_constraints.py\<close> is embedded function by
  function. Every generator takes the optimisation model and a block, mutates both in
  place and may raise; here it takes both as records and returns either the raised error
  or the pair of updated records.
\<close>

datatype error = ValueError | KeyError | IndexError | TypeError | ZeroDivisionError

definition ebind :: "error + 'a \<Rightarrow> ('a \<Rightarrow> error + 'b) \<Rightarrow> error + 'b" where
  "ebind x f = (case x of Inl e \<Rightarrow> Inl e | Inr a \<Rightarrow> f a)"

text \<open>A comprehension whose element expression may raise: the first error ends it.\<close>

fun emap :: "('a \<Rightarrow> error + 'b) \<Rightarrow> 'a list \<Rightarrow> error + 'b list" where
  "emap f [] = Inr []"
| "emap f (x # xs) = ebind (f x) (\<lambda>y. ebind (emap f xs) (\<lambda>ys. Inr (y # ys)))"

text \<open>A \<^verbatim>\<open>for\<close> loop whose body updates a state and may raise.\<close>

fun eloop :: "('a \<Rightarrow> 's \<Rightarrow> error + 's) \<Rightarrow> 'a list \<Rightarrow> 's \<Rightarrow> error + 's" where
  "eloop body [] s = Inr s"
| "eloop body (x # xs) s = ebind (body x s) (eloop body xs)"

text \<open>
  A Python \<^verbatim>\<open>dict\<close> built by a comprehension: an association list with one entry per
  key, a later item with a key already present replacing the value in place.
\<close>

definition dict_of :: "('k \<times> 'v) list \<Rightarrow> ('k \<times> 'v) list" where
  "dict_of kvs = foldl (\<lambda>d (k, v). AList.update k v d) [] kvs"

definition dict_get :: "('k \<times> 'v) list \<Rightarrow> 'k \<Rightarrow> error + 'v" where
  "dict_get d k = (case map_of d k of None \<Rightarrow> Inl KeyError | Some v \<Rightarrow> Inr v)"

definition dict_keys :: "('k \<times> 'v) list \<Rightarrow> 'k list" where
  "dict_keys d = map fst d"

text \<open>A lookup in a mapping that the caller supplies (\<^verbatim>\<open>model.I\<close>, \<^verbatim>\<open>model.O\<close>).\<close>

definition map_get :: "('k \<rightharpoonup> 'v) \<Rightarrow> 'k \<Rightarrow> error + 'v" where
  "map_get d k = (case d k of None \<Rightarrow> Inl KeyError | Some v \<Rightarrow> Inr v)"

text \<open>Python list indexing: a negative index counts from the end, out of range raises.\<close>

definition list_get :: "'a list \<Rightarrow> int \<Rightarrow> error + 'a" where
  "list_get xs i =
     (if 0 \<le> i \<and> i < int (length xs) then Inr (xs ! nat i)
      else if i < 0 \<and> - int (length xs) \<le> i then Inr (xs ! nat (int (length xs) + i))
      else Inl IndexError)"

text \<open>
  The attribute \<^verbatim>\<open>out_max\<close> is subscripted with the integer \<^verbatim>\<open>0\<close> in some places and
  with an output's uid (a string) in another, so its value is kept dynamically typed: a
  list or a dict. A list subscripted with a string raises \<^verbatim>\<open>TypeError\<close>.
\<close>

datatype pykey = KInt int | KStr string

datatype pyseq = PyList "real list" | PyDict "(pykey \<times> real) list"

fun getitem :: "pyseq \<Rightarrow> pykey \<Rightarrow> error + real" where
  "getitem (PyList xs) (KInt i) = list_get xs i"
| "getitem (PyList xs) (KStr s) = Inl TypeError"
| "getitem (PyDict d) k = dict_get d k"

text \<open>A limit that may be \<^verbatim>\<open>float('inf')\<close>.\<close>

datatype limit = Fin real | PInf

section \<open>Variables, expressions and constraints of the optimisation model\<close>

type_synonym uid = string

text \<open>
  One constructor per indexed variable container the module touches:
  \<^verbatim>\<open>model.w[e1, e2, t]\<close>, \<^verbatim>\<open>block.cap[e, t]\<close>, \<^verbatim>\<open>block.add_cap[e]\<close>,
  \<^verbatim>\<open>block.add_out[e]\<close>, \<^verbatim>\<open>model.add_out[e]\<close>, the slack variables of a bus block and
  the variables the generators declare themselves.
\<close>

datatype var =
    W uid uid nat
  | Cap uid nat
  | Add_cap uid
  | Add_out uid
  | Model_add_out uid
  | Excess_slack uid nat
  | Shortage_slack uid nat
  | Curtailment_var uid nat
  | Grad_pos_var uid nat
  | Grad_neg_var uid nat

text \<open>
  A Python value in an arithmetic expression is a plain number or an expression over
  variables. Arithmetic on two plain numbers gives a plain number; as soon as one operand
  is a variable or an expression the result is an expression object.
\<close>

datatype expr =
    Num real
  | Var var
  | Add expr expr
  | Sub expr expr
  | Mul expr expr
  | Div expr expr
  | Neg expr

fun is_number :: "expr \<Rightarrow> bool" where
  "is_number (Num x) = True"
| "is_number e = False"

definition py_add :: "expr \<Rightarrow> expr \<Rightarrow> expr" where
  "py_add a b = (case a of
       Num x \<Rightarrow> (case b of Num y \<Rightarrow> Num (x + y) | _ \<Rightarrow> Add a b)
     | _ \<Rightarrow> Add a b)"

definition py_sub :: "expr \<Rightarrow> expr \<Rightarrow> expr" where
  "py_sub a b = (case a of
       Num x \<Rightarrow> (case b of Num y \<Rightarrow> Num (x - y) | _ \<Rightarrow> Sub a b)
     | _ \<Rightarrow> Sub a b)"

definition py_mul :: "expr \<Rightarrow> expr \<Rightarrow> expr" where
  "py_mul a b = (case a of
       Num x \<Rightarrow> (case b of Num y \<Rightarrow> Num (x * y) | _ \<Rightarrow> Mul a b)
     | _ \<Rightarrow> Mul a b)"

definition py_neg :: "expr \<Rightarrow> expr" where
  "py_neg a = (case a of Num x \<Rightarrow> Num (- x) | _ \<Rightarrow> Neg a)"

text \<open>Division by the plain number zero raises.\<close>

definition py_div :: "expr \<Rightarrow> expr \<Rightarrow> error + expr" where
  "py_div a b = (case b of
       Num y \<Rightarrow> if y = 0 then Inl ZeroDivisionError
                else (case a of Num x \<Rightarrow> Inr (Num (x / y)) | _ \<Rightarrow> Inr (Div a b))
     | _ \<Rightarrow> Inr (Div a b))"

text \<open>The builtin \<^verbatim>\<open>sum\<close>: it starts from the integer 0 and adds from the left.\<close>

definition py_sum :: "expr list \<Rightarrow> expr" where
  "py_sum xs = foldl py_add (Num 0) xs"

datatype constr = Eq expr expr | Le expr expr

text \<open>
  What a constraint rule returns: \<^verbatim>\<open>Constraint.Skip\<close>, a relation between expressions,
  or, when both sides are plain numbers, a Python Boolean.
\<close>

datatype rule_result = Skip | Relation constr | PyBool bool

definition py_eq :: "expr \<Rightarrow> expr \<Rightarrow> rule_result" where
  "py_eq a b = (case a of
       Num x \<Rightarrow> (case b of Num y \<Rightarrow> PyBool (x = y) | _ \<Rightarrow> Relation (Eq a b))
     | _ \<Rightarrow> Relation (Eq a b))"

definition py_le :: "expr \<Rightarrow> expr \<Rightarrow> rule_result" where
  "py_le a b = (case a of
       Num x \<Rightarrow> (case b of Num y \<Rightarrow> PyBool (x \<le> y) | _ \<Rightarrow> Relation (Le a b))
     | _ \<Rightarrow> Relation (Le a b))"

text \<open>
  \<^verbatim>\<open>po.Constraint(index, rule=...)\<close> on a block of a concrete model: the rule runs for
  every index in turn; a skipped index gets no constraint, an exception of the rule
  leaves the generator, and a rule result that is a plain Boolean is rejected with a
  \<^verbatim>\<open>ValueError\<close>. The family is the list of the indices that got a constraint.
\<close>

fun is_bool :: "rule_result \<Rightarrow> bool" where
  "is_bool (PyBool v) = True"
| "is_bool r = False"

fun keep :: "'i \<Rightarrow> rule_result \<Rightarrow> ('i \<times> constr) list \<Rightarrow> ('i \<times> constr) list" where
  "keep i (Relation c) cs = (i, c) # cs"
| "keep i r cs = cs"

fun Constraint :: "('i \<Rightarrow> error + rule_result) \<Rightarrow> 'i list \<Rightarrow> error + ('i \<times> constr) list" where
  "Constraint rule [] = Inr []"
| "Constraint rule (i # idx) =
     ebind (rule i) (\<lambda>r.
       if is_bool r then Inl ValueError
       else ebind (Constraint rule idx) (\<lambda>cs. Inr (keep i r cs)))"

text \<open>The meaning of an expression and of a constraint under an assignment of the variables.\<close>

fun eval :: "(var \<Rightarrow> real) \<Rightarrow> expr \<Rightarrow> real" where
  "eval \<rho> (Num x) = x"
| "eval \<rho> (Var v) = \<rho> v"
| "eval \<rho> (Add a b) = eval \<rho> a + eval \<rho> b"
| "eval \<rho> (Sub a b) = eval \<rho> a - eval \<rho> b"
| "eval \<rho> (Mul a b) = eval \<rho> a * eval \<rho> b"
| "eval \<rho> (Div a b) = eval \<rho> a / eval \<rho> b"
| "eval \<rho> (Neg a) = - eval \<rho> a"

fun sat :: "(var \<Rightarrow> real) \<Rightarrow> constr \<Rightarrow> bool" where
  "sat \<rho> (Eq a b) = (eval \<rho> a = eval \<rho> b)"
| "sat \<rho> (Le a b) = (eval \<rho> a \<le> eval \<rho> b)"

text \<open>
  The attributes of one variable: its current value, whether it is fixed, and its bounds.
\<close>

record varinfo =
  v_val :: "real option"
  v_fixed :: bool
  v_lb :: "real option"
  v_ub :: "real option"

section \<open>Entities, model and block\<close>

text \<open>
  Entities refer to each other through \<^verbatim>\<open>inputs\<close> and \<^verbatim>\<open>outputs\<close>, so they live in
  a store and a reference is an address. The generators only read entities. The class of
  an object matters where the code asks \<^verbatim>\<open>isinstance(x, cp.Transport)\<close>. An entity
  carries every attribute some generator reads.
\<close>

type_synonym ref = nat

datatype cls = Bus | Transport | Source | Sink | Transformer | Storage

record entity =
  uid :: uid
  cls :: cls
  inputs :: "ref list"
  outputs :: "ref list"
  balanced :: bool
  eta :: "real list"
  eta_total :: real
  out_max :: pyseq
  beta :: real
  sigma :: real
  eta_el_cond :: real
  sum_out_limit :: limit
  val :: "real list"
  add_out_limit :: real
  cap_initial :: real
  cap_loss :: real
  eta_in :: real
  eta_out :: real
  c_rate_out :: real
  c_rate_in :: real
  cap_max :: real
  grad_pos :: real
  grad_neg :: real

type_synonym heap = "ref \<Rightarrow> entity"

text \<open>
  The part of the optimisation model the generators use: the timesteps, the components,
  the dictionaries \<^verbatim>\<open>model.I\<close> (the input uid of a component) and \<^verbatim>\<open>model.O\<close> (its
  output uids), the flow variables \<^verbatim>\<open>model.w\<close> and \<^verbatim>\<open>model.add_out\<close>. A variable
  container is a finite map from the declared indices; an index outside it raises
  \<^verbatim>\<open>KeyError\<close>.
\<close>

record model =
  timesteps :: "nat list"
  components :: "ref list"
  I_dict :: "uid \<rightharpoonup> uid"
  O_dict :: "uid \<rightharpoonup> uid list"
  w :: "uid \<times> uid \<times> nat \<rightharpoonup> varinfo"
  model_add_out :: "uid \<rightharpoonup> varinfo"

type_synonym cfamily = "((uid \<times> nat) \<times> constr) list"

type_synonym vfamily = "((uid \<times> nat) \<times> varinfo) list"

text \<open>
  A block: the objects of one archetype with their uids and index set, its options, the
  variable containers the assembler declared on it, and one optional field for every
  component a generator of this module attaches (\<open>None\<close> while it is not declared).
\<close>

record block =
  objs :: "ref list option"
  uids :: "uid list"
  indexset :: "(uid \<times> nat) list"
  optimization_options :: "string \<rightharpoonup> bool"
  excess_uids :: "uid list"
  shortage_uids :: "uid list"
  excess_slack :: "uid \<times> nat \<rightharpoonup> varinfo"
  shortage_slack :: "uid \<times> nat \<rightharpoonup> varinfo"
  cap :: "uid \<times> nat \<rightharpoonup> varinfo"
  add_cap :: "uid \<rightharpoonup> varinfo"
  add_out :: "uid \<rightharpoonup> varinfo"
  curtailment_var :: "vfamily option"
  grad_pos_var :: "vfamily option"
  grad_neg_var :: "vfamily option"
  balance :: "cfamily option"
  io_relation :: "cfamily option"
  ioo_relation :: "cfamily option"
  pth_relation :: "cfamily option"
  equivalent_output :: "cfamily option"
  global_limit :: "(uid \<times> constr) list option"
  invest :: "cfamily option"
  curtailment :: "cfamily option"
  discharge_limit_invest :: "cfamily option"
  charge_limit_invest :: "cfamily option"
  grad_pos_calc :: "cfamily option"
  grad_neg_calc :: "cfamily option"

text \<open>
  The guard \<^verbatim>\<open>if not block.objs or block.objs is None: raise ValueError(...)\<close>: it
  raises when there is no object list or an empty one.
\<close>

definition checked_objs :: "block \<Rightarrow> error + ref list" where
  "checked_objs b = (case objs b of
       None \<Rightarrow> Inl ValueError
     | Some os \<Rightarrow> if os = [] then Inl ValueError else Inr os)"

text \<open>A dictionary \<^verbatim>\<open>{obj.uid: obj.attr for obj in block.objs}\<close>.\<close>

definition attr_dict :: "heap \<Rightarrow> ref list \<Rightarrow> (entity \<Rightarrow> 'a) \<Rightarrow> (uid \<times> 'a) list" where
  "attr_dict h os f = dict_of (map (\<lambda>r. (uid (h r), f (h r))) os)"

text \<open>Reading a variable inside an expression.\<close>

definition var_ref :: "('i \<rightharpoonup> varinfo) \<Rightarrow> 'i \<Rightarrow> var \<Rightarrow> error + expr" where
  "var_ref c i v = (case c i of None \<Rightarrow> Inl KeyError | Some info \<Rightarrow> Inr (Var v))"

definition w_ref :: "model \<Rightarrow> uid \<Rightarrow> uid \<Rightarrow> nat \<Rightarrow> error + expr" where
  "w_ref m e1 e2 t = var_ref (w m) (e1, e2, t) (W e1 e2 t)"

text \<open>\<^verbatim>\<open>model.w[e1, e2, t].setub(x)\<close>, \<^verbatim>\<open>model.w[e1, e2, t] = x\<close> and \<^verbatim>\<open>.fix()\<close>.\<close>

definition upd_var :: "('i \<rightharpoonup> varinfo) \<Rightarrow> 'i \<Rightarrow> (varinfo \<Rightarrow> varinfo) \<Rightarrow> error + ('i \<rightharpoonup> varinfo)" where
  "upd_var c i f = (case c i of None \<Rightarrow> Inl KeyError | Some info \<Rightarrow> Inr (c(i \<mapsto> f info)))"

definition w_setub :: "uid \<times> uid \<times> nat \<Rightarrow> real \<Rightarrow> model \<Rightarrow> error + model" where
  "w_setub k x m = ebind (upd_var (w m) k (\<lambda>info. info\<lparr>v_ub := Some x\<rparr>)) (\<lambda>c. Inr (m\<lparr>w := c\<rparr>))"

definition w_set :: "uid \<times> uid \<times> nat \<Rightarrow> real \<Rightarrow> model \<Rightarrow> error + model" where
  "w_set k x m = ebind (upd_var (w m) k (\<lambda>info. info\<lparr>v_val := Some x\<rparr>)) (\<lambda>c. Inr (m\<lparr>w := c\<rparr>))"

definition w_fix :: "uid \<times> uid \<times> nat \<Rightarrow> model \<Rightarrow> error + model" where
  "w_fix k m = ebind (upd_var (w m) k (\<lambda>info. info\<lparr>v_fixed := True\<rparr>)) (\<lambda>c. Inr (m\<lparr>w := c\<rparr>))"

section \<open>The bus balance\<close>

text \<open>
  Lines 85 to 96 of \<^verbatim>\<open>add_bus_balance\<close>: the dictionaries \<^verbatim>\<open>etas\<close> and
  \<^verbatim>\<open>out_max\<close> keyed by \<^verbatim>\<open>(t.inputs[0].uid, t.outputs[0].uid)\<close> for every transport
  among the model's components, and the upper bound of every transport flow.
\<close>

definition transports :: "heap \<Rightarrow> model \<Rightarrow> ref list" where
  "transports h m = filter (\<lambda>t. cls (h t) = Transport) (components m)"

definition transport_key :: "heap \<Rightarrow> ref \<Rightarrow> error + (uid \<times> uid)" where
  "transport_key h t =
     ebind (list_get (inputs (h t)) 0) (\<lambda>i.
     ebind (list_get (outputs (h t)) 0) (\<lambda>ou.
     Inr (uid (h i), uid (h ou))))"

definition transport_etas :: "heap \<Rightarrow> model \<Rightarrow> error + ((uid \<times> uid) \<times> real) list" where
  "transport_etas h m =
     ebind (emap (\<lambda>t. ebind (transport_key h t) (\<lambda>k.
                      ebind (list_get (eta (h t)) 0) (\<lambda>x. Inr (k, x))))
                 (transports h m))
       (\<lambda>kvs. Inr (dict_of kvs))"

definition transport_out_max :: "heap \<Rightarrow> model \<Rightarrow> error + ((uid \<times> uid) \<times> real) list" where
  "transport_out_max h m =
     ebind (emap (\<lambda>t. ebind (transport_key h t) (\<lambda>k.
                      ebind (getitem (out_max (h t)) (KInt 0)) (\<lambda>x. Inr (k, x))))
                 (transports h m))
       (\<lambda>kvs. Inr (dict_of kvs))"

definition set_transport_bounds ::
  "((uid \<times> uid) \<times> real) list \<Rightarrow> (uid \<times> uid) list \<Rightarrow> model \<Rightarrow> error + model" where
  "set_transport_bounds out_max_d tuples m =
     eloop (\<lambda>(e1, e2). eloop (\<lambda>t m'.
              ebind (dict_get out_max_d (e1, e2)) (\<lambda>x. w_setub (e1, e2, t) x m'))
            (timesteps m))
       tuples m"

text \<open>The rule of the balance constraint, lines 111 to 123.\<close>

definition bus_balance_rule ::
  "model \<Rightarrow> block \<Rightarrow> (uid \<times> uid list) list \<Rightarrow> (uid \<times> uid list) list \<Rightarrow>
   ((uid \<times> uid) \<times> real) list \<Rightarrow> uid \<times> nat \<Rightarrow> error + rule_result" where
  "bus_balance_rule m b I_d O_d etas = (\<lambda>(e, t).
     ebind (dict_get I_d e) (\<lambda>ins.
     ebind (emap (\<lambda>i. w_ref m i e t) ins) (\<lambda>ws_in.
     ebind (emap (\<lambda>(i, e2). ebind (w_ref m i e t) (\<lambda>x.
                            ebind (dict_get etas (i, e2)) (\<lambda>y. Inr (py_mul x (Num y)))))
                 (filter (\<lambda>(i, e2). e = e2) (dict_keys etas))) (\<lambda>ws_tin.
     ebind (dict_get O_d e) (\<lambda>outs.
     ebind (emap (\<lambda>ou. w_ref m e ou t) outs) (\<lambda>ws_out.
     ebind (emap (\<lambda>(e2, ou). w_ref m e ou t)
                 (filter (\<lambda>(e2, ou). e = e2) (dict_keys etas))) (\<lambda>ws_tout.
     let lhs = py_add (py_add (Num 0) (py_sum ws_in)) (py_sum ws_tin);
         rhs = py_add (py_sum ws_out) (py_sum ws_tout)
     in
     ebind (if e \<in> set (excess_uids b)
            then ebind (var_ref (excess_slack b) (e, t) (Excess_slack e t)) (\<lambda>x. Inr (py_add rhs x))
            else Inr rhs) (\<lambda>rhs'.
     ebind (if e \<in> set (shortage_uids b)
            then ebind (var_ref (shortage_slack b) (e, t) (Shortage_slack e t)) (\<lambda>x. Inr (py_add lhs x))
            else Inr lhs) (\<lambda>lhs'.
     Inr (py_eq lhs' rhs'))))))))))"

text \<open>
  \<^verbatim>\<open>add_bus_balance(model, block)\<close>: the guard of line 82, the transport bounds, the
  index set of the balanced buses with their non-transport inputs and outputs (lines 98
  to 107), and the constraint family over these uids and all timesteps.
\<close>

definition add_bus_balance :: "heap \<Rightarrow> model \<Rightarrow> block \<Rightarrow> error + (model \<times> block)" where
  "add_bus_balance h m b =
     ebind (checked_objs b) (\<lambda>os.
     ebind (transport_etas h m) (\<lambda>etas.
     ebind (transport_out_max h m) (\<lambda>out_max_d.
     ebind (emap (transport_key h) (transports h m)) (\<lambda>tuples.
     ebind (set_transport_bounds out_max_d tuples m) (\<lambda>m'.
     let bal = filter (\<lambda>r. balanced (h r)) os;
         uids' = map (\<lambda>r. uid (h r)) bal;
         I_d = dict_of (map (\<lambda>r. (uid (h r),
                 map (\<lambda>i. uid (h i)) (filter (\<lambda>i. cls (h i) \<noteq> Transport) (inputs (h r))))) bal);
         O_d = dict_of (map (\<lambda>r. (uid (h r),
                 map (\<lambda>ou. uid (h ou)) (filter (\<lambda>ou. cls (h ou) \<noteq> Transport) (outputs (h r))))) bal)
     in ebind (Constraint (bus_balance_rule m' b I_d O_d etas) (List.product uids' (timesteps m')))
          (\<lambda>fam. Inr (m', b\<lparr>balance := Some fam\<rparr>)))))))"

section \<open>Transformer relations\<close>

text \<open>The first output of a component, \<^verbatim>\<open>model.O[e][k]\<close>, and its flow variable.\<close>

definition O_at :: "model \<Rightarrow> uid \<Rightarrow> int \<Rightarrow> error + uid" where
  "O_at m e k = ebind (map_get (O_dict m) e) (\<lambda>outs. list_get outs k)"

definition w_out :: "model \<Rightarrow> uid \<Rightarrow> int \<Rightarrow> nat \<Rightarrow> error + expr" where
  "w_out m e k t = ebind (O_at m e k) (\<lambda>ou. w_ref m e ou t)"

text \<open>The flow variable \<^verbatim>\<open>model.w[model.I[e], e, t]\<close>.\<close>

definition w_in :: "model \<Rightarrow> uid \<Rightarrow> nat \<Rightarrow> error + expr" where
  "w_in m e t = ebind (map_get (I_dict m) e) (\<lambda>i. w_ref m i e t)"

text \<open>\<^verbatim>\<open>add_simple_io_relation(model, block, idx=0)\<close>, lines 155 to 167.\<close>

definition io_rule :: "model \<Rightarrow> (uid \<times> real list) list \<Rightarrow> int \<Rightarrow> uid \<times> nat \<Rightarrow> error + rule_result" where
  "io_rule m eta_d idx = (\<lambda>(e, t).
     ebind (w_in m e t) (\<lambda>wi.
     ebind (dict_get eta_d e) (\<lambda>etas.
     ebind (list_get etas idx) (\<lambda>x.
     ebind (w_out m e idx t) (\<lambda>wo.
     Inr (py_eq (py_sub (py_mul wi (Num x)) wo) (Num 0)))))))"

definition add_simple_io_relation :: "heap \<Rightarrow> model \<Rightarrow> block \<Rightarrow> int \<Rightarrow> error + (model \<times> block)" where
  "add_simple_io_relation h m b idx =
     ebind (checked_objs b) (\<lambda>os.
     let eta_d = attr_dict h os eta
     in ebind (Constraint (io_rule m eta_d idx) (indexset b))
          (\<lambda>fam. Inr (m, b\<lparr>io_relation := Some fam\<rparr>)))"

text \<open>\<^verbatim>\<open>add_eta_total_chp_relation(model, block)\<close>, lines 197 to 208.\<close>

definition ioo_rule :: "model \<Rightarrow> (uid \<times> real) list \<Rightarrow> uid \<times> nat \<Rightarrow> error + rule_result" where
  "ioo_rule m eta_total_d = (\<lambda>(e, t).
     ebind (w_in m e t) (\<lambda>wi.
     ebind (dict_get eta_total_d e) (\<lambda>x.
     ebind (w_out m e 0 t) (\<lambda>wo1.
     ebind (w_out m e 1 t) (\<lambda>wo2.
     Inr (py_eq (py_mul wi (Num x)) (py_add wo1 wo2)))))))"

definition add_eta_total_chp_relation :: "heap \<Rightarrow> model \<Rightarrow> block \<Rightarrow> error + (model \<times> block)" where
  "add_eta_total_chp_relation h m b =
     ebind (checked_objs b) (\<lambda>os.
     let eta_total_d = attr_dict h os eta_total
     in ebind (Constraint (ioo_rule m eta_total_d) (indexset b))
          (\<lambda>fam. Inr (m, b\<lparr>ioo_relation := Some fam\<rparr>)))"

text \<open>\<^verbatim>\<open>add_simple_chp_relation(model, block)\<close>, lines 239 to 255.\<close>

definition simple_chp_rule :: "model \<Rightarrow> (uid \<times> real list) list \<Rightarrow> uid \<times> nat \<Rightarrow> error + rule_result" where
  "simple_chp_rule m eta_d = (\<lambda>(e, t).
     ebind (w_out m e 0 t) (\<lambda>wo1.
     ebind (dict_get eta_d e) (\<lambda>etas.
     ebind (list_get etas 0) (\<lambda>x1.
     ebind (py_div wo1 (Num x1)) (\<lambda>lhs.
     ebind (w_out m e 1 t) (\<lambda>wo2.
     ebind (dict_get eta_d e) (\<lambda>etas'.
     ebind (list_get etas' 1) (\<lambda>x2.
     ebind (py_div (py_neg wo2) (Num x2)) (\<lambda>d.
     Inr (py_eq (py_add lhs d) (Num 0)))))))))))"

definition add_simple_chp_relation :: "heap \<Rightarrow> model \<Rightarrow> block \<Rightarrow> error + (model \<times> block)" where
  "add_simple_chp_relation h m b =
     ebind (checked_objs b) (\<lambda>os.
     let eta_d = attr_dict h os eta
     in ebind (Constraint (simple_chp_rule m eta_d) (indexset b))
          (\<lambda>fam. Inr (m, b\<lparr>pth_relation := Some fam\<rparr>)))"

text \<open>\<^verbatim>\<open>add_simple_extraction_chp_relation(model, block)\<close>, lines 297 to 324.\<close>

definition equivalent_output_rule ::
  "model \<Rightarrow> (uid \<times> real) list \<Rightarrow> (uid \<times> real) list \<Rightarrow> uid \<times> nat \<Rightarrow> error + rule_result" where
  "equivalent_output_rule m beta_d eta_el_cond_d = (\<lambda>(e, t).
     ebind (w_in m e t) (\<lambda>lhs.
     ebind (w_out m e 0 t) (\<lambda>wo1.
     ebind (dict_get beta_d e) (\<lambda>be.
     ebind (w_out m e 1 t) (\<lambda>wo2.
     ebind (dict_get eta_el_cond_d e) (\<lambda>x.
     ebind (py_div (py_add wo1 (py_mul (Num be) wo2)) (Num x)) (\<lambda>rhs.
     Inr (py_eq lhs rhs))))))))"

definition power_heat_rule :: "model \<Rightarrow> (uid \<times> real) list \<Rightarrow> uid \<times> nat \<Rightarrow> error + rule_result" where
  "power_heat_rule m sigma_d = (\<lambda>(e, t).
     ebind (w_out m e 0 t) (\<lambda>lhs.
     ebind (dict_get sigma_d e) (\<lambda>sg.
     ebind (w_out m e 1 t) (\<lambda>wo2.
     Inr (py_le lhs (py_mul (Num sg) wo2))))))"

definition add_simple_extraction_chp_relation ::
  "heap \<Rightarrow> model \<Rightarrow> block \<Rightarrow> error + (model \<times> block)" where
  "add_simple_extraction_chp_relation h m b =
     ebind (checked_objs b) (\<lambda>os.
     let beta_d = attr_dict h os beta;
         sigma_d = attr_dict h os sigma;
         eta_el_cond_d = attr_dict h os eta_el_cond
     in ebind (Constraint (equivalent_output_rule m beta_d eta_el_cond_d) (indexset b)) (\<lambda>fam1.
        ebind (Constraint (power_heat_rule m sigma_d) (indexset b)) (\<lambda>fam2.
        Inr (m, b\<lparr>equivalent_output := Some fam1, pth_relation := Some fam2\<rparr>))))"

section \<open>The global output limit\<close>

text \<open>
  \<^verbatim>\<open>add_global_output_limit(model, block)\<close>, lines 348 to 374. The dictionary \<^verbatim>\<open>O\<close>
  maps an object to the uids of its outputs, an output that is a transport standing for
  the uid of the transport's first output. For an infinite limit the rule skips whatever
  the left-hand side is; for a finite one the difference of line 361 is a plain number
  exactly when the sum is.
\<close>

definition limit_outputs :: "heap \<Rightarrow> ref \<Rightarrow> error + uid list" where
  "limit_outputs h r =
     emap (\<lambda>ou. if cls (h ou) \<noteq> Transport then Inr (uid (h ou))
                else ebind (list_get (outputs (h ou)) 0) (\<lambda>d. Inr (uid (h d))))
          (outputs (h r))"

definition output_limit_rule ::
  "model \<Rightarrow> (uid \<times> limit) list \<Rightarrow> (uid \<times> uid list) list \<Rightarrow> uid \<Rightarrow> error + rule_result" where
  "output_limit_rule m limit_d O_d e =
     ebind (emap (\<lambda>t. ebind (dict_get O_d e) (\<lambda>outs. emap (\<lambda>ou. w_ref m e ou t) outs))
                 (timesteps m)) (\<lambda>wss.
     ebind (dict_get limit_d e) (\<lambda>l.
     case l of
       PInf \<Rightarrow> Inr Skip
     | Fin x \<Rightarrow>
         (let lhs = py_sub (py_sum (concat wss)) (Num x)
          in if is_number lhs then Inr Skip else Inr (py_le lhs (Num 0)))))"

definition add_global_output_limit :: "heap \<Rightarrow> model \<Rightarrow> block \<Rightarrow> error + (model \<times> block)" where
  "add_global_output_limit h m b =
     ebind (checked_objs b) (\<lambda>os.
     let limit_d = attr_dict h os sum_out_limit
     in ebind (emap (\<lambda>r. ebind (limit_outputs h r) (\<lambda>outs. Inr (uid (h r), outs))) os) (\<lambda>kvs.
        ebind (Constraint (output_limit_rule m limit_d (dict_of kvs)) (uids b)) (\<lambda>fam.
        Inr (m, b\<lparr>global_limit := Some fam\<rparr>))))"

section \<open>Sources\<close>

text \<open>
  Modelled from the spec: the method \<^verbatim>\<open>model.edges\<close> of the optimisation model is not
  part of this module. Section 3 of the specification describes an edge as an ordered pair
  (source uid, destination uid) derived from the inputs and outputs of an entity by
  traversal: for every object the pairs from each of its inputs to it and from it to each
  of its outputs.
\<close>

definition edges :: "heap \<Rightarrow> ref list \<Rightarrow> (uid \<times> uid) list" where
  "edges h cs = concat (map (\<lambda>c.
       map (\<lambda>i. (uid (h i), uid (h c))) (inputs (h c)) @
       map (\<lambda>ou. (uid (h c), uid (h ou))) (outputs (h c))) cs)"

text \<open>The value \<^verbatim>\<open>val[e][t] * out_max[e][0]\<close>.\<close>

definition scaled_val :: "(uid \<times> real list) list \<Rightarrow> (uid \<times> pyseq) list \<Rightarrow> uid \<Rightarrow> nat \<Rightarrow> error + real" where
  "scaled_val val_d out_max_d e t =
     ebind (dict_get val_d e) (\<lambda>vs.
     ebind (list_get vs (int t)) (\<lambda>v.
     ebind (dict_get out_max_d e) (\<lambda>om.
     ebind (getitem om (KInt 0)) (\<lambda>c.
     Inr (v * c)))))"

text \<open>\<^verbatim>\<open>block.optimization_options.get('investment', False)\<close>.\<close>

definition investment :: "block \<Rightarrow> bool" where
  "investment b = (case optimization_options b ''investment'' of None \<Rightarrow> False | Some v \<Rightarrow> v)"

text \<open>
  The loop of lines 422 to 427: for every edge and every timestep, set the value of the
  flow and fix it.
\<close>

definition fix_flow ::
  "(uid \<times> real list) list \<Rightarrow> (uid \<times> pyseq) list \<Rightarrow> uid \<Rightarrow> uid \<Rightarrow> nat \<Rightarrow> model \<Rightarrow> error + model" where
  "fix_flow val_d out_max_d e1 e2 t m =
     ebind (scaled_val val_d out_max_d e1 t) (\<lambda>x.
     ebind (w_set (e1, e2, t) x m) (\<lambda>m'.
     w_fix (e1, e2, t) m'))"

definition fix_flows ::
  "(uid \<times> real list) list \<Rightarrow> (uid \<times> pyseq) list \<Rightarrow> (uid \<times> uid) list \<Rightarrow> model \<Rightarrow> error + model" where
  "fix_flows val_d out_max_d ee m =
     eloop (\<lambda>(e1, e2). eloop (fix_flow val_d out_max_d e1 e2) (timesteps m)) ee m"

text \<open>The rule of lines 435 to 438.\<close>

definition invest_rule ::
  "model \<Rightarrow> (uid \<times> real list) list \<Rightarrow> (uid \<times> pyseq) list \<Rightarrow> uid \<times> nat \<Rightarrow> error + rule_result" where
  "invest_rule m val_d out_max_d = (\<lambda>(e, t).
     ebind (w_out m e 0 t) (\<lambda>lhs.
     ebind (dict_get out_max_d e) (\<lambda>om.
     ebind (O_at m e 0) (\<lambda>ou.
     ebind (getitem om (KStr ou)) (\<lambda>c.
     ebind (var_ref (model_add_out m) e (Model_add_out e)) (\<lambda>a.
     ebind (dict_get val_d e) (\<lambda>vs.
     ebind (list_get vs (int t)) (\<lambda>v.
     Inr (py_eq lhs (py_mul (py_add (Num c) a) (Num v)))))))))))"

text \<open>\<^verbatim>\<open>add_fixed_source(model, block)\<close>, lines 403 to 439.\<close>

definition add_fixed_source :: "heap \<Rightarrow> model \<Rightarrow> block \<Rightarrow> error + (model \<times> block)" where
  "add_fixed_source h m b =
     ebind (checked_objs b) (\<lambda>os.
     let out_max_d = attr_dict h os out_max;
         val_d = attr_dict h os val
     in if \<not> investment b then
          ebind (fix_flows val_d out_max_d (edges h os) m) (\<lambda>m'. Inr (m', b))
        else
          let add_out_limit_d = attr_dict h os add_out_limit
          in ebind (eloop (\<lambda>e c. case c e of None \<Rightarrow> Inl KeyError
                          | Some info \<Rightarrow> ebind (dict_get add_out_limit_d e) (\<lambda>x.
                              Inr (c(e \<mapsto> info\<lparr>v_ub := Some x\<rparr>))))
                       (uids b) (add_out b)) (\<lambda>add_out'.
             ebind (Constraint (invest_rule m val_d out_max_d) (indexset b)) (\<lambda>fam.
             Inr (m, b\<lparr>add_out := add_out', invest := Some fam\<rparr>))))"

text \<open>
  \<^verbatim>\<open>po.Var(index, within=po.NonNegativeReals, bounds=...)\<close>: one variable per index with
  lower bound 0 and, when a bounds rule is given, the upper bound the rule returns.
\<close>

definition Var_nonneg :: "('i \<Rightarrow> error + real option) \<Rightarrow> 'i list \<Rightarrow> error + ('i \<times> varinfo) list" where
  "Var_nonneg bound idx =
     emap (\<lambda>i. ebind (bound i) (\<lambda>u.
             Inr (i, \<lparr>v_val = None, v_fixed = False, v_lb = Some 0, v_ub = u\<rparr>))) idx"

text \<open>
  The loop of lines 483 to 486: for every edge and every timestep, the upper bound of the
  flow. The variable is looked up before the bound is computed.
\<close>

definition bound_flow ::
  "(uid \<times> real list) list \<Rightarrow> (uid \<times> pyseq) list \<Rightarrow> uid \<Rightarrow> uid \<Rightarrow> nat \<Rightarrow> model \<Rightarrow> error + model" where
  "bound_flow val_d out_max_d e1 e2 t m =
     (case w m (e1, e2, t) of
        None \<Rightarrow> Inl KeyError
      | Some info \<Rightarrow> ebind (scaled_val val_d out_max_d e1 t) (\<lambda>x. w_setub (e1, e2, t) x m))"

definition bound_flows ::
  "(uid \<times> real list) list \<Rightarrow> (uid \<times> pyseq) list \<Rightarrow> (uid \<times> uid) list \<Rightarrow> model \<Rightarrow> error + model" where
  "bound_flows val_d out_max_d ee m =
     eloop (\<lambda>(e1, e2). eloop (bound_flow val_d out_max_d e1 e2) (timesteps m)) ee m"

text \<open>The rule of lines 488 to 492.\<close>

definition curtailment_source_rule ::
  "model \<Rightarrow> vfamily \<Rightarrow> (uid \<times> real list) list \<Rightarrow> (uid \<times> pyseq) list \<Rightarrow> uid \<times> nat \<Rightarrow> error + rule_result" where
  "curtailment_source_rule m cv val_d out_max_d = (\<lambda>(e, t).
     ebind (var_ref (map_of cv) (e, t) (Curtailment_var e t)) (\<lambda>lhs.
     ebind (scaled_val val_d out_max_d e t) (\<lambda>x.
     ebind (w_out m e 0 t) (\<lambda>wo.
     Inr (py_eq lhs (py_sub (Num x) wo))))))"

text \<open>\<^verbatim>\<open>add_dispatch_source(model, block)\<close>, lines 468 to 494.\<close>

definition add_dispatch_source :: "heap \<Rightarrow> model \<Rightarrow> block \<Rightarrow> error + (model \<times> block)" where
  "add_dispatch_source h m b =
     ebind (checked_objs b) (\<lambda>os.
     ebind (Var_nonneg (\<lambda>i. Inr None) (indexset b)) (\<lambda>cv.
     let out_max_d = attr_dict h os out_max;
         val_d = attr_dict h os val
     in ebind (bound_flows val_d out_max_d (edges h os) m) (\<lambda>m'.
        ebind (Constraint (curtailment_source_rule m' cv val_d out_max_d) (indexset b)) (\<lambda>fam.
        Inr (m', b\<lparr>curtailment_var := Some cv, curtailment := Some fam\<rparr>)))))"

section \<open>Storages\<close>

text \<open>
  Lines 536 to 539: the capacity of the timestep \<^verbatim>\<open>len(model.timesteps) - 1\<close> is set
  to the initial capacity and fixed, for every uid of the block. With no timestep the
  index is -1, which no capacity variable has.
\<close>

definition fix_last_cap :: "model \<Rightarrow> (uid \<times> real) list \<Rightarrow> uid list \<Rightarrow> block \<Rightarrow> error + block" where
  "fix_last_cap m cap_initial_d us b =
     eloop (\<lambda>e b'.
        ebind (dict_get cap_initial_d e) (\<lambda>c.
        if timesteps m = [] then Inl KeyError
        else let t_last = length (timesteps m) - 1
             in ebind (upd_var (cap b') (e, t_last) (\<lambda>info. info\<lparr>v_val := Some c\<rparr>)) (\<lambda>cap'.
                ebind (upd_var cap' (e, t_last) (\<lambda>info. info\<lparr>v_fixed := True\<rparr>)) (\<lambda>cap''.
                Inr (b'\<lparr>cap := cap''\<rparr>)))))
       us b"

text \<open>The rule of lines 541 to 554; the returned pair \<^verbatim>\<open>(expr, 0)\<close> is the equality of its parts.\<close>

definition storage_balance_rule ::
  "model \<Rightarrow> block \<Rightarrow> (uid \<times> real) list \<Rightarrow> (uid \<times> real) list \<Rightarrow> (uid \<times> real) list \<Rightarrow>
   (uid \<times> real) list \<Rightarrow> uid \<times> nat \<Rightarrow> error + rule_result" where
  "storage_balance_rule m b cap_initial_d cap_loss_d eta_in_d eta_out_d = (\<lambda>(e, t).
     ebind (if t = 0 then
              ebind (var_ref (cap b) (e, t) (Cap e t)) (\<lambda>c.
              ebind (dict_get cap_initial_d e) (\<lambda>ci.
              Inr (py_add (Num 0) (py_sub c (Num ci)))))
            else
              ebind (var_ref (cap b) (e, t) (Cap e t)) (\<lambda>c.
              ebind (var_ref (cap b) (e, t - 1) (Cap e (t - 1))) (\<lambda>cp.
              ebind (dict_get cap_loss_d e) (\<lambda>cl.
              Inr (py_add (py_add (Num 0) c) (py_mul (py_neg cp) (Num (1 - cl)))))))) (\<lambda>expr1.
     ebind (w_in m e t) (\<lambda>wi.
     ebind (dict_get eta_in_d e) (\<lambda>ei.
     let expr2 = py_add expr1 (py_mul (py_neg wi) (Num ei))
     in
     ebind (w_out m e 0 t) (\<lambda>wo.
     ebind (dict_get eta_out_d e) (\<lambda>eo.
     ebind (py_div wo (Num eo)) (\<lambda>d.
     Inr (py_eq (py_add expr2 d) (Num 0)))))))))"

text \<open>\<^verbatim>\<open>add_storage_balance(model, block)\<close>, lines 520 to 555.\<close>

definition add_storage_balance :: "heap \<Rightarrow> model \<Rightarrow> block \<Rightarrow> error + (model \<times> block)" where
  "add_storage_balance h m b =
     ebind (checked_objs b) (\<lambda>os.
     let cap_initial_d = attr_dict h os cap_initial;
         cap_loss_d = attr_dict h os cap_loss;
         eta_in_d = attr_dict h os eta_in;
         eta_out_d = attr_dict h os eta_out
     in ebind (fix_last_cap m cap_initial_d (uids b) b) (\<lambda>b'.
        ebind (Constraint (storage_balance_rule m b' cap_initial_d cap_loss_d eta_in_d eta_out_d)
                 (indexset b')) (\<lambda>fam.
        Inr (m, b'\<lparr>balance := Some fam\<rparr>))))"

text \<open>
  \<^verbatim>\<open>add_storage_charge_discharge_limits(model, block)\<close>, lines 586 to 609. The function
  has no guard; its comprehensions iterate over \<^verbatim>\<open>block.objs\<close>, which raises
  \<^verbatim>\<open>TypeError\<close> when that is \<^verbatim>\<open>None\<close> and gives empty dictionaries when it is empty.
\<close>

definition storage_discharge_limit_rule ::
  "model \<Rightarrow> block \<Rightarrow> (uid \<times> real) list \<Rightarrow> (uid \<times> real) list \<Rightarrow> uid \<times> nat \<Rightarrow> error + rule_result" where
  "storage_discharge_limit_rule m b cap_max_d c_rate_out_d = (\<lambda>(e, t).
     ebind (w_out m e 0 t) (\<lambda>wo.
     ebind (dict_get cap_max_d e) (\<lambda>cm.
     ebind (var_ref (add_cap b) e (Add_cap e)) (\<lambda>ac.
     ebind (dict_get c_rate_out_d e) (\<lambda>cr.
     Inr (py_le (py_add (py_add (Num 0) wo) (py_mul (py_neg (py_add (Num cm) ac)) (Num cr)))
                (Num 0)))))))"

definition storage_charge_limit_rule ::
  "model \<Rightarrow> block \<Rightarrow> (uid \<times> real) list \<Rightarrow> (uid \<times> real) list \<Rightarrow> uid \<times> nat \<Rightarrow> error + rule_result" where
  "storage_charge_limit_rule m b cap_max_d c_rate_in_d = (\<lambda>(e, t).
     ebind (map_get (I_dict m) e) (\<lambda>i.
     ebind (w_ref m e i t) (\<lambda>wi.
     ebind (dict_get cap_max_d e) (\<lambda>cm.
     ebind (var_ref (add_cap b) e (Add_cap e)) (\<lambda>ac.
     ebind (dict_get c_rate_in_d e) (\<lambda>cr.
     Inr (py_le (py_add (py_add (Num 0) wi) (py_mul (py_neg (py_add (Num cm) ac)) (Num cr)))
                (Num 0))))))))"

definition add_storage_charge_discharge_limits ::
  "heap \<Rightarrow> model \<Rightarrow> block \<Rightarrow> error + (model \<times> block)" where
  "add_storage_charge_discharge_limits h m b =
     (case objs b of
        None \<Rightarrow> Inl TypeError
      | Some os \<Rightarrow>
          let c_rate_out_d = attr_dict h os c_rate_out;
              c_rate_in_d = attr_dict h os c_rate_in;
              cap_max_d = attr_dict h os cap_max
          in ebind (Constraint (storage_discharge_limit_rule m b cap_max_d c_rate_out_d)
                      (List.product (uids b) (timesteps m))) (\<lambda>fam1.
             ebind (Constraint (storage_charge_limit_rule m b cap_max_d c_rate_in_d)
                      (List.product (uids b) (timesteps m))) (\<lambda>fam2.
             Inr (m, b\<lparr>discharge_limit_invest := Some fam1, charge_limit_invest := Some fam2\<rparr>))))"

section \<open>Output gradients\<close>

text \<open>The rules of lines 654 to 674.\<close>

definition grad_pos_calc_rule :: "model \<Rightarrow> vfamily \<Rightarrow> uid \<times> nat \<Rightarrow> error + rule_result" where
  "grad_pos_calc_rule m gv = (\<lambda>(e, t).
     if t > 0 then
       ebind (w_out m e 0 t) (\<lambda>w1.
       ebind (w_out m e 0 (t - 1)) (\<lambda>w0.
       ebind (var_ref (map_of gv) (e, t) (Grad_pos_var e t)) (\<lambda>rhs.
       Inr (py_le (py_sub w1 w0) rhs))))
     else Inr Skip)"

definition grad_neg_calc_rule :: "model \<Rightarrow> vfamily \<Rightarrow> uid \<times> nat \<Rightarrow> error + rule_result" where
  "grad_neg_calc_rule m gv = (\<lambda>(e, t).
     if t > 0 then
       ebind (w_out m e 0 (t - 1)) (\<lambda>w0.
       ebind (w_out m e 0 t) (\<lambda>w1.
       ebind (var_ref (map_of gv) (e, t) (Grad_neg_var e t)) (\<lambda>rhs.
       Inr (py_le (py_sub w0 w1) rhs))))
     else Inr Skip)"

definition grad_bound_rule :: "(uid \<times> real) list \<Rightarrow> uid \<times> nat \<Rightarrow> error + real option" where
  "grad_bound_rule grad_d = (\<lambda>(e, t). ebind (dict_get grad_d e) (\<lambda>g. Inr (Some g)))"

text \<open>\<^verbatim>\<open>add_output_gradient_calc(model, block, grad_direc='both')\<close>, lines 650 to 694.\<close>

definition add_output_gradient_calc ::
  "heap \<Rightarrow> model \<Rightarrow> block \<Rightarrow> string \<Rightarrow> error + (model \<times> block)" where
  "add_output_gradient_calc h m b grad_direc =
     ebind (checked_objs b) (\<lambda>os.
     ebind (if grad_direc = ''positive'' \<or> grad_direc = ''both'' then
              let grad_pos_d = attr_dict h os grad_pos
              in ebind (Var_nonneg (grad_bound_rule grad_pos_d) (indexset b)) (\<lambda>gv.
                 ebind (Constraint (grad_pos_calc_rule m gv) (indexset b)) (\<lambda>fam.
                 Inr (b\<lparr>grad_pos_var := Some gv, grad_pos_calc := Some fam\<rparr>)))
            else Inr b) (\<lambda>b1.
     ebind (if grad_direc = ''negative'' \<or> grad_direc = ''both'' then
              let grad_neg_d = attr_dict h os grad_neg
              in ebind (Var_nonneg (grad_bound_rule grad_neg_d) (indexset b1)) (\<lambda>gv.
                 ebind (Constraint (grad_neg_calc_rule m gv) (indexset b1)) (\<lambda>fam.
                 Inr (b1\<lparr>grad_neg_var := Some gv, grad_neg_calc := Some fam\<rparr>)))
            else Inr b1) (\<lambda>b2.
     Inr (m, b2))))"

section \<open>An example system\<close>

text \<open>
  The system of \<^verbatim>\<open>examples/storage_optimization/storage_invest.py\<close>: the buses
  \<^verbatim>\<open>bgas\<close> and \<^verbatim>\<open>bel\<close>, the commodity \<^verbatim>\<open>rgas\<close>, the fixed source \<^verbatim>\<open>wind\<close>, the
  sink \<^verbatim>\<open>demand\<close>, the transformer \<^verbatim>\<open>pp_gas\<close> and the storage \<^verbatim>\<open>sto\<close>, over three
  timesteps. A transport \<^verbatim>\<open>line\<close> from \<^verbatim>\<open>bel\<close> to a second electricity bus
  \<^verbatim>\<open>bel2\<close>, a bus \<^verbatim>\<open>bth\<close> that is not balanced and a transport \<^verbatim>\<open>line2\<close> from
  \<^verbatim>\<open>bel2\<close> to \<^verbatim>\<open>bth\<close> are added to it, and the
  storage gets a capacity, an initial level and a loss that are not zero.
\<close>

definition entity0 :: entity where
  "entity0 = \<lparr>uid = [], cls = Bus, inputs = [], outputs = [], balanced = False, eta = [],
     eta_total = 0, out_max = PyList [], beta = 0, sigma = 0, eta_el_cond = 0,
     sum_out_limit = PInf, val = [], add_out_limit = 0, cap_initial = 0, cap_loss = 0,
     eta_in = 0, eta_out = 0, c_rate_out = 0, c_rate_in = 0, cap_max = 0, grad_pos = 0,
     grad_neg = 0\<rparr>"

definition var0 :: varinfo where
  "var0 = \<lparr>v_val = None, v_fixed = False, v_lb = Some 0, v_ub = None\<rparr>"

definition ex_heap :: heap where
  "ex_heap r =
    (if r = 10 then entity0\<lparr>uid := ''bgas'', cls := Bus, inputs := [12], outputs := [15],
                          balanced := True\<rparr>
     else if r = 11 then entity0\<lparr>uid := ''bel'', cls := Bus, inputs := [13, 15, 16],
                          outputs := [14, 16, 17], balanced := True\<rparr>
     else if r = 12 then entity0\<lparr>uid := ''rgas'', cls := Source, outputs := [10],
                          sum_out_limit := Fin 194397000\<rparr>
     else if r = 13 then entity0\<lparr>uid := ''wind'', cls := Source, outputs := [11],
                          val := [1 / 2, 1 / 4, 3 / 4], out_max := PyList [1000000], add_out_limit := 0,
                          grad_pos := 300, grad_neg := 200\<rparr>
     else if r = 14 then entity0\<lparr>uid := ''demand'', cls := Sink, inputs := [11]\<rparr>
     else if r = 15 then entity0\<lparr>uid := ''pp_gas'', cls := Transformer, inputs := [10],
                          outputs := [11], eta := [58 / 100]\<rparr>
     else if r = 16 then entity0\<lparr>uid := ''sto'', cls := Storage, inputs := [11], outputs := [11],
                          eta_in := 9 / 10, eta_out := 8 / 10, cap_loss := 1 / 100, cap_max := 100,
                          cap_initial := 40, c_rate_in := 1 / 6, c_rate_out := 1 / 6\<rparr>
     else if r = 17 then entity0\<lparr>uid := ''line'', cls := Transport, inputs := [11], outputs := [18],
                          eta := [9 / 10], out_max := PyList [500]\<rparr>
     else if r = 18 then entity0\<lparr>uid := ''bel2'', cls := Bus, inputs := [17], outputs := [20],
                          balanced := True, sum_out_limit := Fin 1000\<rparr>
     else if r = 19 then entity0\<lparr>uid := ''bth'', cls := Bus, inputs := [20], balanced := False\<rparr>
     else if r = 20 then entity0\<lparr>uid := ''line2'', cls := Transport, inputs := [18], outputs := [19],
                          eta := [95 / 100], out_max := PyList [200]\<rparr>
     else entity0)"

definition ex_edges :: "(uid \<times> uid) list" where
  "ex_edges = [(''rgas'', ''bgas''), (''bgas'', ''pp_gas''), (''pp_gas'', ''bel''),
     (''wind'', ''bel''), (''bel'', ''demand''), (''bel'', ''sto''), (''sto'', ''bel''),
     (''bel'', ''bel2''), (''bel2'', ''bth'')]"

definition ex_model :: model where
  "ex_model = \<lparr>timesteps = [0, 1, 2], components = [12, 13, 14, 15, 16, 17, 20],
     I_dict = [''pp_gas'' \<mapsto> ''bgas'', ''sto'' \<mapsto> ''bel''],
     O_dict = [''rgas'' \<mapsto> [''bgas''], ''wind'' \<mapsto> [''bel''], ''pp_gas'' \<mapsto> [''bel''],
               ''sto'' \<mapsto> [''bel'']],
     w = (\<lambda>(e1, e2, t). if (e1, e2) \<in> set ex_edges \<and> t < 3 then Some var0 else None),
     model_add_out = Map.empty\<rparr>"

definition block0 :: block where
  "block0 = \<lparr>objs = None, uids = [], indexset = [], optimization_options = Map.empty,
     excess_uids = [], shortage_uids = [], excess_slack = Map.empty, shortage_slack = Map.empty,
     cap = Map.empty, add_cap = Map.empty, add_out = Map.empty,
     curtailment_var = None, grad_pos_var = None, grad_neg_var = None,
     balance = None, io_relation = None, ioo_relation = None, pth_relation = None,
     equivalent_output = None, global_limit = None, invest = None, curtailment = None,
     discharge_limit_invest = None, charge_limit_invest = None, grad_pos_calc = None,
     grad_neg_calc = None\<rparr>"

text \<open>The block of the buses: \<^verbatim>\<open>bel\<close> may have excess, \<^verbatim>\<open>bel2\<close> shortage.\<close>

definition ex_bus_block :: block where
  "ex_bus_block = block0\<lparr>objs := Some [10, 11, 18, 19],
     uids := [''bgas'', ''bel'', ''bel2'', ''bth''],
     excess_uids := [''bel''], shortage_uids := [''bel2''],
     excess_slack := (\<lambda>(e, t). if e = ''bel'' \<and> t < 3 then Some var0 else None),
     shortage_slack := (\<lambda>(e, t). if e = ''bel2'' \<and> t < 3 then Some var0 else None)\<rparr>"

text \<open>
  The block of the storages, with investment as the example script sets it, and the block
  of the fixed sources with and without investment.
\<close>

definition ex_storage_block :: block where
  "ex_storage_block = block0\<lparr>objs := Some [16], uids := [''sto''],
     indexset := [(''sto'', 0), (''sto'', 1), (''sto'', 2)],
     optimization_options := [''investment'' \<mapsto> True],
     cap := (\<lambda>(e, t). if e = ''sto'' \<and> t < 3 then Some var0 else None),
     add_cap := [''sto'' \<mapsto> var0]\<rparr>"

definition ex_source_block :: block where
  "ex_source_block = block0\<lparr>objs := Some [13], uids := [''wind''],
     indexset := [(''wind'', 0), (''wind'', 1), (''wind'', 2)],
     add_out := [''wind'' \<mapsto> var0]\<rparr>"

definition ex_invest_source_block :: block where
  "ex_invest_source_block = ex_source_block\<lparr>optimization_options := [''investment'' \<mapsto> True]\<rparr>"

text \<open>A storage block without objects.\<close>

definition ex_empty_block :: block where
  "ex_empty_block = block0\<lparr>objs := Some []\<rparr>"

text \<open>
  For stating results: the capacity variable with index \<open>k\<close> of a block has the value
  \<open>c\<close> and is fixed.
\<close>

definition cap_fixed_at :: "block \<Rightarrow> uid \<times> nat \<Rightarrow> real \<Rightarrow> bool" where
  "cap_fixed_at b k c = (\<exists>info. cap b k = Some info \<and> v_val info = Some c \<and> v_fixed info)"

text \<open>The block of the entities with a limit on their total output.\<close>

definition ex_limit_block :: block where
  "ex_limit_block = block0\<lparr>objs := Some [12, 18], uids := [''rgas'', ''bel2'']\<rparr>"

text \<open>
  For stating results: the constraint that a run of the generator attached to the uid
  \<open>e\<close> in \<^verbatim>\<open>block.global_limit\<close>, if it attached one.
\<close>

definition limit_constraint :: "error + model \<times> block \<Rightarrow> uid \<Rightarrow> constr option" where
  "limit_constraint res e =
     (case res of
        Inl err \<Rightarrow> None
      | Inr (m', b') \<Rightarrow> (case global_limit b' of None \<Rightarrow> None | Some fam \<Rightarrow> map_of fam e))"

text \<open>
  For stating results: the flow variable with index \<open>k\<close> has the value \<open>x\<close> and is
  fixed; it has the upper bound \<open>x\<close>.
\<close>

definition flow_fixed_at :: "model \<Rightarrow> uid \<times> uid \<times> nat \<Rightarrow> real \<Rightarrow> bool" where
  "flow_fixed_at m k x = (\<exists>info. w m k = Some info \<and> v_val info = Some x \<and> v_fixed info)"

definition flow_ub_at :: "model \<Rightarrow> uid \<times> uid \<times> nat \<Rightarrow> real \<Rightarrow> bool" where
  "flow_ub_at m k x = (\<exists>info. w m k = Some info \<and> v_ub info = Some x)"

text \<open>
  For stating results: an assignment within_bounds the bounds of a variable, and its value
  when the variable is fixed.
\<close>

definition within_bounds :: "(var \<Rightarrow> real) \<Rightarrow> var \<Rightarrow> varinfo \<Rightarrow> bool" where
  "within_bounds \<rho> v info =
     ((case v_lb info of None \<Rightarrow> True | Some l \<Rightarrow> l \<le> \<rho> v) \<and>
      (case v_ub info of None \<Rightarrow> True | Some u \<Rightarrow> \<rho> v \<le> u) \<and>
      (if v_fixed info then v_val info = Some (\<rho> v) else True))"

text \<open>The block of the dispatchable sources of the example: the source \<^verbatim>\<open>wind\<close>.\<close>

definition ex_dispatch_block :: block where
  "ex_dispatch_block = block0\<lparr>objs := Some [13], uids := [''wind''],
     indexset := [(''wind'', 0), (''wind'', 1), (''wind'', 2)]\<rparr>"






section \<open>Basic facts\<close>

lemma ebind_Inr [simp]: "ebind (Inr a) f = f a"
  by (simp add: ebind_def)

lemma ebind_Inl [simp]: "ebind (Inl e) f = Inl e"
  by (simp add: ebind_def)

lemma ebind_eq_Inr: "ebind x f = Inr y \<longleftrightarrow> (\<exists>a. x = Inr a \<and> f a = Inr y)"
  by (cases x) simp_all

lemma emap_eq_map:
  "emap f xs = Inr ys \<Longrightarrow> (\<And>x y. x \<in> set xs \<Longrightarrow> f x = Inr y \<Longrightarrow> y = g x) \<Longrightarrow> ys = map g xs"
proof (induction xs arbitrary: ys)
  case Nil
  then show ?case by simp
next
  case (Cons x xs)
  from Cons.prems(1) obtain y ys' where y: "f x = Inr y" and ys': "emap f xs = Inr ys'"
    and ys: "ys = y # ys'"
    by (auto simp: ebind_eq_Inr)
  have "ys' = map g xs" using Cons.IH [OF ys'] Cons.prems(2) by simp
  moreover have "y = g x" using Cons.prems(2) [of x y] y by simp
  ultimately show ?case using ys by simp
qed

lemma emap_total:
  "(\<And>x. x \<in> set xs \<Longrightarrow> f x = Inr (g x)) \<Longrightarrow> emap f xs = Inr (map g xs)"
  by (induction xs) simp_all

lemma emap_cong_set:
  "(\<And>x. x \<in> set xs \<Longrightarrow> f x = f' x) \<Longrightarrow> emap f xs = emap f' xs"
  by (induction xs) simp_all

lemma eval_py_add [simp]: "eval \<rho> (py_add a b) = eval \<rho> a + eval \<rho> b"
  by (simp add: py_add_def split: expr.splits)

lemma eval_py_sub [simp]: "eval \<rho> (py_sub a b) = eval \<rho> a - eval \<rho> b"
  by (simp add: py_sub_def split: expr.splits)

lemma eval_py_mul [simp]: "eval \<rho> (py_mul a b) = eval \<rho> a * eval \<rho> b"
  by (simp add: py_mul_def split: expr.splits)

lemma eval_py_neg [simp]: "eval \<rho> (py_neg a) = - eval \<rho> a"
  by (simp add: py_neg_def split: expr.splits)

lemma eval_py_div: "py_div a b = Inr c \<Longrightarrow> eval \<rho> c = eval \<rho> a / eval \<rho> b"
  by (auto simp: py_div_def split: expr.splits if_splits)

lemma eval_foldl_py_add: "eval \<rho> (foldl py_add a xs) = eval \<rho> a + sum_list (map (eval \<rho>) xs)"
  by (induction xs arbitrary: a) simp_all

lemma eval_py_sum [simp]: "eval \<rho> (py_sum xs) = sum_list (map (eval \<rho>) xs)"
  by (simp add: py_sum_def eval_foldl_py_add)

lemma py_eq_Relation: "py_eq a b = Relation c \<Longrightarrow> c = Eq a b"
  by (auto simp: py_eq_def split: expr.splits)

lemma py_le_Relation: "py_le a b = Relation c \<Longrightarrow> c = Le a b"
  by (auto simp: py_le_def split: expr.splits)

lemma py_eq_not_Skip [simp]: "py_eq a b \<noteq> Skip"
  by (auto simp: py_eq_def split: expr.splits)

lemma py_le_not_Skip [simp]: "py_le a b \<noteq> Skip"
  by (auto simp: py_le_def split: expr.splits)



lemma update_fresh: "k \<notin> fst ` set d \<Longrightarrow> AList.update k v d = d @ [(k, v)]"
  by (induction d) auto

lemma foldl_update_distinct:
  "distinct (map fst kvs) \<Longrightarrow> fst ` set d \<inter> fst ` set kvs = {} \<Longrightarrow>
   foldl (\<lambda>d (k, v). AList.update k v d) d kvs = d @ kvs"
proof (induction kvs arbitrary: d)
  case Nil
  then show ?case by simp
next
  case (Cons kv kvs)
  obtain k v where kv: "kv = (k, v)" by (cases kv)
  have fresh: "k \<notin> fst ` set d" using Cons.prems(2) kv by auto
  have "foldl (\<lambda>d (k, v). AList.update k v d) (d @ [(k, v)]) kvs = (d @ [(k, v)]) @ kvs"
    using Cons.prems kv by (intro Cons.IH) auto
  then show ?case by (simp add: kv update_fresh [OF fresh])
qed

lemma dict_of_distinct: "distinct (map fst kvs) \<Longrightarrow> dict_of kvs = kvs"
  using foldl_update_distinct [of kvs "[]"] by (simp add: dict_of_def)

lemma dict_get_distinct:
  "distinct (map fst kvs) \<Longrightarrow> (k, v) \<in> set kvs \<Longrightarrow> dict_get (dict_of kvs) k = Inr v"
  by (simp add: dict_of_distinct dict_get_def)

lemma Constraint_lookup:
  "Constraint rule idx = Inr fam \<Longrightarrow>
   map_of fam i = (if i \<in> set idx then (case rule i of Inr (Relation c) \<Rightarrow> Some c | _ \<Rightarrow> None) else None)"
proof (induction idx arbitrary: fam)
  case Nil
  then show ?case by simp
next
  case (Cons j idx)
  from Cons.prems obtain r cs where r: "rule j = Inr r" "\<not> is_bool r"
    and cs: "Constraint rule idx = Inr cs" and fam: "fam = keep j r cs"
    by (auto simp: ebind_eq_Inr split: if_splits)
  show ?case
    using Cons.IH [OF cs] fam r by (cases r) auto
qed

lemma Constraint_rule_ok:
  "Constraint rule idx = Inr fam \<Longrightarrow> i \<in> set idx \<Longrightarrow>
   \<exists>r. rule i = Inr r \<and> (\<forall>v. r \<noteq> PyBool v)"
proof (induction idx arbitrary: fam)
  case Nil
  then show ?case by simp
next
  case (Cons j idx)
  from Cons.prems obtain r cs where r: "rule j = Inr r" "\<not> is_bool r"
    and cs: "Constraint rule idx = Inr cs"
    by (auto simp: ebind_eq_Inr split: if_splits)
  show ?case
  proof (cases "i = j")
    case True
    then show ?thesis using r by (cases r) auto
  next
    case False
    then have "i \<in> set idx" using Cons.prems by simp
    then show ?thesis using Cons.IH [OF cs] by blast
  qed
qed

lemma var_ref_Inr: "var_ref c i v = Inr x \<Longrightarrow> x = Var v"
  by (auto simp: var_ref_def split: option.splits)

lemma w_ref_Inr: "w_ref m a b t = Inr x \<Longrightarrow> x = Var (W a b t)"
  by (auto simp: w_ref_def dest: var_ref_Inr)

lemma list_get_0: "list_get xs 0 = Inr x \<Longrightarrow> xs \<noteq> [] \<and> x = hd xs"
  by (cases xs) (auto simp: list_get_def split: if_splits)


lemma emap_map: "emap f (map g xs) = emap (\<lambda>x. f (g x)) xs"
  by (induction xs) simp_all

lemma eloop_invariant:
  "eloop body xs s = Inr s' \<Longrightarrow> P s \<Longrightarrow>
   (\<And>x a a'. x \<in> set xs \<Longrightarrow> P a \<Longrightarrow> body x a = Inr a' \<Longrightarrow> P a') \<Longrightarrow> P s'"
proof (induction xs arbitrary: s)
  case Nil
  then show ?case by simp
next
  case (Cons x xs)
  from Cons.prems(1) obtain a where a: "body x s = Inr a" and rest: "eloop body xs a = Inr s'"
    by (auto simp: ebind_eq_Inr)
  have "P a" using Cons.prems(2,3) a by auto
  then show ?case using Cons.IH [OF rest] Cons.prems(3) by auto
qed




section \<open>The bus balance constraint\<close>









section \<open>Buses that are not balanced\<close>

lemma bus_balance_rule_objs:
  "bus_balance_rule m (b\<lparr>objs := x\<rparr>) I_d O_d etas = bus_balance_rule m b I_d O_d etas"
  by (simp add: bus_balance_rule_def Let_def cong: if_cong)

text \<open>
  Claim C10. A bus \<open>r\<close> of the block whose \<^verbatim>\<open>balanced\<close> attribute is not true, and
  whose uid no balanced bus of the block shares, gets no constraint in \<^verbatim>\<open>block.balance\<close>
  at any timestep whenever \<^verbatim>\<open>add_bus_balance\<close> completes; and it causes no error:
  the generator ends in the same way, with the same model and the same family, when the
  bus is taken out of the block's objects, as long as other objects remain.
\<close>

theorem unbalanced_bus_excluded:
  assumes os: "objs b = Some os" and r: "r \<in> set os" "\<not> balanced (h r)"
    and other: "uid (h r) \<notin> set (map (\<lambda>x. uid (h x)) (filter (\<lambda>x. balanced (h x)) os))"
  shows "(\<forall>m' b'. add_bus_balance h m b = Inr (m', b') \<longrightarrow>
            (\<exists>fam. balance b' = Some fam \<and> (\<forall>t. map_of fam (uid (h r), t) = None))) \<and>
         (filter (\<lambda>x. x \<noteq> r) os \<noteq> [] \<longrightarrow>
            map_sum id (\<lambda>(m', b'). (m', balance b')) (add_bus_balance h m b) =
            map_sum id (\<lambda>(m', b'). (m', balance b'))
              (add_bus_balance h m (b\<lparr>objs := Some (filter (\<lambda>x. x \<noteq> r) os)\<rparr>)))"
proof (intro conjI allI impI)
  fix m' b'
  assume run: "add_bus_balance h m b = Inr (m', b')"
  define bal where "bal = filter (\<lambda>x. balanced (h x)) os"
  from run obtain rule ts fam
    where fam: "Constraint rule (List.product (map (\<lambda>x. uid (h x)) bal) ts) = Inr fam"
      and b': "b' = b\<lparr>balance := Some fam\<rparr>"
    using os unfolding add_bus_balance_def
    by (auto simp: ebind_eq_Inr checked_objs_def Let_def bal_def split: if_splits)
  have nin: "(uid (h r), t) \<notin> set (List.product (map (\<lambda>x. uid (h x)) bal) ts)" for t
    using other by (auto simp: bal_def)
  have "map_of fam (uid (h r), t) = None" for t
    using Constraint_lookup [OF fam, of "(uid (h r), t)"] nin [of t] by (simp only: if_False)
  then show "\<exists>fam. balance b' = Some fam \<and> (\<forall>t. map_of fam (uid (h r), t) = None)"
    by (simp add: b')
next
  assume ne: "filter (\<lambda>x. x \<noteq> r) os \<noteq> []"
  have same: "filter (\<lambda>x. balanced (h x)) (filter (\<lambda>x. x \<noteq> r) os) = filter (\<lambda>x. balanced (h x)) os"
    using r(2) by (auto intro: filter_cong)
  have os_ne: "os \<noteq> []" using r(1) by auto
  have c1: "checked_objs b = Inr os" using os os_ne by (simp add: checked_objs_def)
  have c2: "checked_objs (b\<lparr>objs := Some (filter (\<lambda>x. x \<noteq> r) os)\<rparr>) = Inr (filter (\<lambda>x. x \<noteq> r) os)"
    using ne by (simp add: checked_objs_def)
  show "map_sum id (\<lambda>(m', b'). (m', balance b')) (add_bus_balance h m b) =
        map_sum id (\<lambda>(m', b'). (m', balance b'))
          (add_bus_balance h m (b\<lparr>objs := Some (filter (\<lambda>x. x \<noteq> r) os)\<rparr>))"
    unfolding add_bus_balance_def c1 c2 ebind_Inr same bus_balance_rule_objs Let_def
    by (simp add: ebind_def split: sum.splits)
qed

theorem unbalanced_bus_excluded_witness:
  "objs ex_bus_block = Some [10, 11, 18, 19] \<and> 19 \<in> set [10, 11, 18, 19 :: nat] \<and>
   \<not> balanced (ex_heap 19) \<and>
   uid (ex_heap 19) \<notin> set (map (\<lambda>x. uid (ex_heap x))
                               (filter (\<lambda>x. balanced (ex_heap x)) [10, 11, 18, 19])) \<and>
   filter (\<lambda>x. x \<noteq> 19) [10, 11, 18, 19 :: nat] \<noteq> [] \<and>
   (\<exists>m' b' fam. add_bus_balance ex_heap ex_model ex_bus_block = Inr (m', b') \<and>
      balance b' = Some fam \<and> (\<forall>t. map_of fam (''bth'', t) = None)) \<and>
   map_sum id (\<lambda>(m', b'). (m', balance b')) (add_bus_balance ex_heap ex_model ex_bus_block) =
   map_sum id (\<lambda>(m', b'). (m', balance b'))
     (add_bus_balance ex_heap ex_model (ex_bus_block\<lparr>objs := Some [10, 11, 18]\<rparr>))"
proof -
  have "\<not> isl (add_bus_balance ex_heap ex_model ex_bus_block)"
    by code_simp
  then obtain m' b' where run: "add_bus_balance ex_heap ex_model ex_bus_block = Inr (m', b')"
    by (cases "add_bus_balance ex_heap ex_model ex_bus_block") auto
  have os: "objs ex_bus_block = Some [10, 11, 18, 19]"
    by (simp add: ex_bus_block_def block0_def)
  have r: "19 \<in> set [10, 11, 18, 19 :: nat]" by simp
  have nb: "\<not> balanced (ex_heap 19)" and u: "uid (ex_heap 19) = ''bth''"
    by (simp_all add: ex_heap_def entity0_def)
  have other: "uid (ex_heap 19) \<notin> set (map (\<lambda>x. uid (ex_heap x))
                               (filter (\<lambda>x. balanced (ex_heap x)) [10, 11, 18, 19]))"
    by (simp add: ex_heap_def entity0_def)
  have f: "filter (\<lambda>x. x \<noteq> 19) [10, 11, 18, 19 :: nat] = [10, 11, 18]" by simp
  note inst = unbalanced_bus_excluded [OF os r nb other, of ex_model]
  from inst run obtain fam where "balance b' = Some fam" "\<forall>t. map_of fam (''bth'', t) = None"
    unfolding u by blast
  moreover from inst have "map_sum id (\<lambda>(m', b'). (m', balance b')) (add_bus_balance ex_heap ex_model ex_bus_block) =
   map_sum id (\<lambda>(m', b'). (m', balance b'))
     (add_bus_balance ex_heap ex_model (ex_bus_block\<lparr>objs := Some [10, 11, 18]\<rparr>))"
    unfolding f by simp
  ultimately show ?thesis using run os nb other f by auto
qed

section \<open>The guard against an empty block\<close>

text \<open>
  Ten of the eleven generators start with the guard and raise \<^verbatim>\<open>ValueError\<close> for a
  block without objects.
\<close>

lemma guarded_generators_raise:
  assumes "objs b = None \<or> objs b = Some []"
  shows "add_bus_balance h m b = Inl ValueError"
    and "add_simple_io_relation h m b idx = Inl ValueError"
    and "add_eta_total_chp_relation h m b = Inl ValueError"
    and "add_simple_chp_relation h m b = Inl ValueError"
    and "add_simple_extraction_chp_relation h m b = Inl ValueError"
    and "add_global_output_limit h m b = Inl ValueError"
    and "add_fixed_source h m b = Inl ValueError"
    and "add_dispatch_source h m b = Inl ValueError"
    and "add_storage_balance h m b = Inl ValueError"
    and "add_output_gradient_calc h m b d = Inl ValueError"
proof -
  have c: "checked_objs b = Inl ValueError"
    using assms by (auto simp: checked_objs_def)
  show "add_bus_balance h m b = Inl ValueError"
    by (simp add: add_bus_balance_def c)
  show "add_simple_io_relation h m b idx = Inl ValueError"
    by (simp add: add_simple_io_relation_def c)
  show "add_eta_total_chp_relation h m b = Inl ValueError"
    by (simp add: add_eta_total_chp_relation_def c)
  show "add_simple_chp_relation h m b = Inl ValueError"
    by (simp add: add_simple_chp_relation_def c)
  show "add_simple_extraction_chp_relation h m b = Inl ValueError"
    by (simp add: add_simple_extraction_chp_relation_def c)
  show "add_global_output_limit h m b = Inl ValueError"
    by (simp add: add_global_output_limit_def c)
  show "add_fixed_source h m b = Inl ValueError"
    by (simp add: add_fixed_source_def c)
  show "add_dispatch_source h m b = Inl ValueError"
    by (simp add: add_dispatch_source_def c)
  show "add_storage_balance h m b = Inl ValueError"
    by (simp add: add_storage_balance_def c)
  show "add_output_gradient_calc h m b d = Inl ValueError"
    by (simp add: add_output_gradient_calc_def c)
qed

text \<open>
  Claim C4. The claim that every generator raises a configuration error for an empty
  entity subset fails for \<^verbatim>\<open>add_storage_charge_discharge_limits\<close>, which has no guard:
  for a block with an empty object list it returns, having attached two empty constraint
  families, where its sibling \<^verbatim>\<open>add_storage_balance\<close> raises \<^verbatim>\<open>ValueError\<close>.
\<close>

theorem charge_discharge_limits_unguarded:
  "add_storage_charge_discharge_limits ex_heap ex_model ex_empty_block =
     Inr (ex_model, ex_empty_block\<lparr>discharge_limit_invest := Some [], charge_limit_invest := Some []\<rparr>)
   \<and> add_storage_balance ex_heap ex_model ex_empty_block = Inl ValueError"
  by (simp add: add_storage_charge_discharge_limits_def add_storage_balance_def checked_objs_def
        ex_empty_block_def block0_def)

section \<open>The charge limit of a storage\<close>

text \<open>
  Claim C3. The charge limit of the storage \<^verbatim>\<open>sto\<close> of the example, whose input bus
  is \<^verbatim>\<open>bel\<close>, should bound the flow \<^verbatim>\<open>W(bel, sto, t)\<close> into the storage, as the
  docstring of the generator writes it. The rule of line 603 reads
  \<^verbatim>\<open>model.w[e, model.I[e], t]\<close>: the constraint it emits bounds \<^verbatim>\<open>W(sto, bel, t)\<close>, the
  flow from the storage to its input bus.
\<close>

theorem charge_limit_on_reverse_edge:
  "(case add_storage_charge_discharge_limits ex_heap ex_model ex_storage_block of
      Inl e \<Rightarrow> False
    | Inr (m', b') \<Rightarrow>
        (case charge_limit_invest b' of
           None \<Rightarrow> False
         | Some fam \<Rightarrow>
             map_of fam (''sto'', 0) =
               Some (Le (Add (Add (Num 0) (Var (W ''sto'' ''bel'' 0)))
                            (Mul (Neg (Add (Num 100) (Var (Add_cap ''sto'')))) (Num (1 / 6))))
                        (Num 0))))"
  by code_simp

section \<open>A fixed source with investment\<close>

text \<open>
  Claim C7. In investment mode the rule of line 437 subscripts \<^verbatim>\<open>out_max[e]\<close> with the
  uid of the first output, where the other mode and the dispatchable source take
  \<^verbatim>\<open>out_max[e][0]\<close>. For the source \<^verbatim>\<open>wind\<close> of the example, whose \<^verbatim>\<open>out_max\<close> is the
  list \<^verbatim>\<open>[1000000]\<close>, the generator raises \<^verbatim>\<open>TypeError\<close> and emits no constraint.
\<close>

theorem invest_rule_type_error:
  "add_fixed_source ex_heap ex_model ex_invest_source_block = Inl TypeError"
proof -
  have "(case add_fixed_source ex_heap ex_model ex_invest_source_block of
           Inl e \<Rightarrow> e = TypeError | Inr x \<Rightarrow> False)"
    by code_simp
  then show ?thesis
    by (auto split: sum.splits)
qed

section \<open>The storage balance\<close>

lemma attr_dict_get:
  "distinct (map (\<lambda>x. uid (h x)) os) \<Longrightarrow> r \<in> set os \<Longrightarrow>
   dict_get (attr_dict h os f) (uid (h r)) = Inr (f (h r))"
  unfolding attr_dict_def
  by (intro dict_get_distinct) (auto simp: comp_def)

lemma map_get_Inr: "map_get d k = Inr v \<longleftrightarrow> d k = Some v"
  by (simp add: map_get_def split: option.splits)

lemma w_in_Inr:
  "w_in m e t = Inr x \<Longrightarrow> I_dict m e = Some i \<Longrightarrow> x = Var (W i e t)"
  by (auto simp: w_in_def ebind_eq_Inr map_get_Inr dest: w_ref_Inr)

lemma O_at_0: "O_at m e 0 = Inr ou \<Longrightarrow> O_dict m e = Some outs \<Longrightarrow> ou = hd outs"
  by (auto simp: O_at_def ebind_eq_Inr map_get_Inr dest: list_get_0)

lemma w_out_Inr:
  "w_out m e 0 t = Inr x \<Longrightarrow> O_dict m e = Some outs \<Longrightarrow> x = Var (W e (hd outs) t)"
  by (auto simp: w_out_def ebind_eq_Inr dest!: w_ref_Inr dest: O_at_0)

lemma upd_var_Inr:
  "upd_var c i f = Inr c' \<Longrightarrow> \<exists>info. c i = Some info \<and> c' = c(i \<mapsto> f info)"
  by (auto simp: upd_var_def split: option.splits)

lemma fix_last_cap_step:
  assumes "ebind (dict_get d e) (\<lambda>c.
        if timesteps m = [] then Inl KeyError
        else let t_last = length (timesteps m) - 1
             in ebind (upd_var (cap b) (e, t_last) (\<lambda>info. info\<lparr>v_val := Some c\<rparr>)) (\<lambda>cap'.
                ebind (upd_var cap' (e, t_last) (\<lambda>info. info\<lparr>v_fixed := True\<rparr>)) (\<lambda>cap''.
                Inr (b\<lparr>cap := cap''\<rparr>)))) = Inr b'"
  shows "\<exists>c info. dict_get d e = Inr c \<and> timesteps m \<noteq> [] \<and>
           cap b (e, length (timesteps m) - 1) = Some info \<and>
           b' = b\<lparr>cap := (cap b)((e, length (timesteps m) - 1) \<mapsto>
                   info\<lparr>v_val := Some c, v_fixed := True\<rparr>)\<rparr>"
  using assms
  by (auto simp: ebind_eq_Inr Let_def split: if_splits dest!: upd_var_Inr)

lemma fix_last_cap_frame:
  assumes "fix_last_cap m d us b = Inr b'"
  shows "\<exists>c. b' = b\<lparr>cap := c\<rparr>"
  using assms unfolding fix_last_cap_def
proof (rule eloop_invariant [where P = "\<lambda>s. \<exists>c. s = b\<lparr>cap := c\<rparr>"])
  show "\<exists>c. b = b\<lparr>cap := c\<rparr>"
    by (rule exI [of _ "cap b"]) simp
next
  fix x a a'
  assume "\<exists>c. a = b\<lparr>cap := c\<rparr>" and step: "ebind (dict_get d x) (\<lambda>c.
        if timesteps m = [] then Inl KeyError
        else let t_last = length (timesteps m) - 1
             in ebind (upd_var (cap a) (x, t_last) (\<lambda>info. info\<lparr>v_val := Some c\<rparr>)) (\<lambda>cap'.
                ebind (upd_var cap' (x, t_last) (\<lambda>info. info\<lparr>v_fixed := True\<rparr>)) (\<lambda>cap''.
                Inr (a\<lparr>cap := cap''\<rparr>)))) = Inr a'"
  then show "\<exists>c. a' = b\<lparr>cap := c\<rparr>"
    using fix_last_cap_step [OF step] by auto
qed

lemma fix_last_cap_fixed:
  "fix_last_cap m d us b = Inr b' \<Longrightarrow> e \<in> set us \<Longrightarrow> dict_get d e = Inr c \<Longrightarrow>
   timesteps m \<noteq> [] \<and> cap_fixed_at b' (e, length (timesteps m) - 1) c"
proof (induction us arbitrary: b)
  case Nil
  then show ?case by simp
next
  case (Cons x us)
  let ?tl = "length (timesteps m) - 1"
  from Cons.prems(1) obtain b1 where step: "ebind (dict_get d x) (\<lambda>c.
        if timesteps m = [] then Inl KeyError
        else let t_last = length (timesteps m) - 1
             in ebind (upd_var (cap b) (x, t_last) (\<lambda>info. info\<lparr>v_val := Some c\<rparr>)) (\<lambda>cap'.
                ebind (upd_var cap' (x, t_last) (\<lambda>info. info\<lparr>v_fixed := True\<rparr>)) (\<lambda>cap''.
                Inr (b\<lparr>cap := cap''\<rparr>)))) = Inr b1"
    and rest: "fix_last_cap m d us b1 = Inr b'"
    by (auto simp: fix_last_cap_def ebind_eq_Inr)
  from fix_last_cap_step [OF step] obtain cx info where cx: "dict_get d x = Inr cx"
    and ne: "timesteps m \<noteq> []" and b1: "b1 = b\<lparr>cap := (cap b)((x, ?tl) \<mapsto>
                   info\<lparr>v_val := Some cx, v_fixed := True\<rparr>)\<rparr>"
    by blast
  show ?case
  proof (cases "e \<in> set us")
    case True
    then show ?thesis using Cons.IH [OF rest] Cons.prems(3) by simp
  next
    case False
    then have ex: "e = x" using Cons.prems(2) by simp
    then have "cx = c" using cx Cons.prems(3) by simp
    then have start: "cap_fixed_at b1 (e, ?tl) c"
      by (simp add: cap_fixed_at_def b1 ex)
    have "cap_fixed_at b' (e, ?tl) c"
      using rest [unfolded fix_last_cap_def] start
    proof (rule eloop_invariant [where P = "\<lambda>s. cap_fixed_at s (e, ?tl) c"])
      fix y a a'
      assume y: "y \<in> set us" and a: "cap_fixed_at a (e, ?tl) c"
        and st: "ebind (dict_get d y) (\<lambda>c.
        if timesteps m = [] then Inl KeyError
        else let t_last = length (timesteps m) - 1
             in ebind (upd_var (cap a) (y, t_last) (\<lambda>info. info\<lparr>v_val := Some c\<rparr>)) (\<lambda>cap'.
                ebind (upd_var cap' (y, t_last) (\<lambda>info. info\<lparr>v_fixed := True\<rparr>)) (\<lambda>cap''.
                Inr (a\<lparr>cap := cap''\<rparr>)))) = Inr a'"
      have "y \<noteq> e" using y False by auto
      then show "cap_fixed_at a' (e, ?tl) c"
        using fix_last_cap_step [OF st] a by (auto simp: cap_fixed_at_def)
    qed
    then show ?thesis using ne by simp
  qed
qed

text \<open>
  Claim C2. Let the timesteps be \<open>0, \<dots>, n - 1\<close>, and let \<open>e\<close> be the uid of a storage
  of the block, with input \<open>i\<close> and first output \<open>hd outs\<close>. Whenever
  \<^verbatim>\<open>add_storage_balance\<close> completes, the capacity variable of \<open>e\<close> at the last timestep
  was set to \<^verbatim>\<open>cap_initial(e)\<close> and fixed in the block \<open>b1\<close> from which the constraint
  family is then built, and it is so in the final block; the constraint at \<open>(e, 0)\<close> holds
  exactly when \<^verbatim>\<open>CAP(e,0) = cap_initial(e) + W(i,e,0) * eta_in(e) - W(e,out,0) / eta_out(e)\<close>,
  and for \<open>t > 0\<close> the constraint at \<open>(e, t)\<close> holds exactly when
  \<^verbatim>\<open>CAP(e,t) = CAP(e,t-1) * (1 - cap_loss(e)) + W(i,e,t) * eta_in(e) - W(e,out,t) / eta_out(e)\<close>.
\<close>

theorem storage_balance_recursion:
  assumes run: "add_storage_balance h m b = Inr (m', b')"
    and os: "objs b = Some os" "r \<in> set os" "distinct (map (\<lambda>x. uid (h x)) os)"
    and e: "e = uid (h r)" "e \<in> set (uids b)"
    and io: "I_dict m e = Some i" "O_dict m e = Some outs"
    and ts: "timesteps m = [0..<n]"
  shows "\<exists>b1 fam.
      fix_last_cap m (attr_dict h os cap_initial) (uids b) b = Inr b1 \<and>
      cap_fixed_at b1 (e, last (timesteps m)) (cap_initial (h r)) \<and>
      Constraint (storage_balance_rule m b1 (attr_dict h os cap_initial) (attr_dict h os cap_loss)
                    (attr_dict h os eta_in) (attr_dict h os eta_out)) (indexset b) = Inr fam \<and>
      b' = b1\<lparr>balance := Some fam\<rparr> \<and>
      cap_fixed_at b' (e, last (timesteps m)) (cap_initial (h r)) \<and>
      ((e, 0) \<in> set (indexset b) \<longrightarrow>
         (\<exists>c. map_of fam (e, 0) = Some c \<and>
            (\<forall>\<rho>. sat \<rho> c \<longleftrightarrow>
               \<rho> (Cap e 0) = cap_initial (h r) + \<rho> (W i e 0) * eta_in (h r)
                              - \<rho> (W e (hd outs) 0) / eta_out (h r)))) \<and>
      (\<forall>t. 0 < t \<and> (e, t) \<in> set (indexset b) \<longrightarrow>
         (\<exists>c. map_of fam (e, t) = Some c \<and>
            (\<forall>\<rho>. sat \<rho> c \<longleftrightarrow>
               \<rho> (Cap e t) = \<rho> (Cap e (t - 1)) * (1 - cap_loss (h r)) + \<rho> (W i e t) * eta_in (h r)
                              - \<rho> (W e (hd outs) t) / eta_out (h r))))"
proof -
  let ?ci = "attr_dict h os cap_initial" and ?cl = "attr_dict h os cap_loss"
  let ?ei = "attr_dict h os eta_in" and ?eo = "attr_dict h os eta_out"
  have chk: "checked_objs b = Inr os \<or> os = []"
    using os(1) by (simp add: checked_objs_def)
  from run obtain b1 fam
    where fixd: "fix_last_cap m ?ci (uids b) b = Inr b1"
      and fam: "Constraint (storage_balance_rule m b1 ?ci ?cl ?ei ?eo) (indexset b1) = Inr fam"
      and b': "b' = b1\<lparr>balance := Some fam\<rparr>" and m': "m' = m"
    using os(1) unfolding add_storage_balance_def
    by (auto simp: ebind_eq_Inr checked_objs_def Let_def split: if_splits)
  from fix_last_cap_frame [OF fixd] obtain cp where b1: "b1 = b\<lparr>cap := cp\<rparr>" ..
  then have ix: "indexset b1 = indexset b" by simp
  have d: "dict_get ?ci e = Inr (cap_initial (h r))" "dict_get ?cl e = Inr (cap_loss (h r))"
    "dict_get ?ei e = Inr (eta_in (h r))" "dict_get ?eo e = Inr (eta_out (h r))"
    using os(2,3) by (simp_all add: e(1) attr_dict_get)
  from fix_last_cap_fixed [OF fixd e(2) d(1)]
  have ne: "timesteps m \<noteq> []"
    and fx: "cap_fixed_at b1 (e, length (timesteps m) - 1) (cap_initial (h r))"
    by simp_all
  have lst: "last (timesteps m) = length (timesteps m) - 1"
    using ne ts by (cases n) (simp_all add: last_upt)
  have fx1: "cap_fixed_at b1 (e, last (timesteps m)) (cap_initial (h r))"
    using fx lst by simp
  then have fx2: "cap_fixed_at b' (e, last (timesteps m)) (cap_initial (h r))"
    by (simp add: b' cap_fixed_at_def)
  have at: "\<exists>c. map_of fam (e, t) = Some c \<and>
            (\<forall>\<rho>. sat \<rho> c \<longleftrightarrow>
               \<rho> (Cap e t) = (if t = 0 then cap_initial (h r)
                               else \<rho> (Cap e (t - 1)) * (1 - cap_loss (h r)))
                              + \<rho> (W i e t) * eta_in (h r)
                              - \<rho> (W e (hd outs) t) / eta_out (h r))"
    if idx: "(e, t) \<in> set (indexset b)" for t
  proof -
    from Constraint_rule_ok [OF fam [unfolded ix] idx] obtain rr
      where rr: "storage_balance_rule m b1 ?ci ?cl ?ei ?eo (e, t) = Inr rr"
        and nb: "\<forall>v. rr \<noteq> PyBool v"
      by blast
    have look: "map_of fam (e, t) = (case rr of Relation c \<Rightarrow> Some c | _ \<Rightarrow> None)"
      using Constraint_lookup [OF fam [unfolded ix], of "(e, t)"] idx rr by simp
    from rr obtain expr1 wi wo dv
      where e1: "(if t = 0 then
              ebind (var_ref (cap b1) (e, t) (Cap e t)) (\<lambda>c.
              Inr (py_add (Num 0) (py_sub c (Num (cap_initial (h r))))))
            else
              ebind (var_ref (cap b1) (e, t) (Cap e t)) (\<lambda>c.
              ebind (var_ref (cap b1) (e, t - 1) (Cap e (t - 1))) (\<lambda>cp.
              Inr (py_add (py_add (Num 0) c) (py_mul (py_neg cp) (Num (1 - cap_loss (h r)))))))) = Inr expr1"
        and wi: "w_in m e t = Inr wi" and wo: "w_out m e 0 t = Inr wo"
        and dv: "py_div wo (Num (eta_out (h r))) = Inr dv"
        and rr_eq: "rr = py_eq (py_add (py_add expr1 (py_mul (py_neg wi) (Num (eta_in (h r))))) dv) (Num 0)"
      unfolding storage_balance_rule_def
      by (auto simp: ebind_eq_Inr d Let_def cong: if_cong)
    have wi_eq: "wi = Var (W i e t)" using wi io(1) by (rule w_in_Inr)
    have wo_eq: "wo = Var (W e (hd outs) t)" using wo io(2) by (rule w_out_Inr)
    have ev1: "eval \<rho> expr1 = \<rho> (Cap e t) - (if t = 0 then cap_initial (h r)
                               else \<rho> (Cap e (t - 1)) * (1 - cap_loss (h r)))" for \<rho>
      using e1 by (auto simp: ebind_eq_Inr split: if_splits dest!: var_ref_Inr)
    have evd: "eval \<rho> dv = \<rho> (W e (hd outs) t) / eta_out (h r)" for \<rho>
      using eval_py_div [OF dv, of \<rho>] by (simp add: wo_eq)
    let ?lhs = "py_add (py_add expr1 (py_mul (py_neg wi) (Num (eta_in (h r))))) dv"
    have rel: "rr = Relation (Eq ?lhs (Num 0))"
      using rr_eq nb by (auto simp: py_eq_def split: expr.splits)
    have "sat \<rho> (Eq ?lhs (Num 0)) \<longleftrightarrow>
               \<rho> (Cap e t) = (if t = 0 then cap_initial (h r)
                               else \<rho> (Cap e (t - 1)) * (1 - cap_loss (h r)))
                              + \<rho> (W i e t) * eta_in (h r)
                              - \<rho> (W e (hd outs) t) / eta_out (h r)" for \<rho>
      by (simp add: ev1 evd wi_eq) argo
    then show ?thesis using look rel by simp
  qed
  have a0: "(e, 0) \<in> set (indexset b) \<longrightarrow>
         (\<exists>c. map_of fam (e, 0) = Some c \<and>
            (\<forall>\<rho>. sat \<rho> c \<longleftrightarrow>
               \<rho> (Cap e 0) = cap_initial (h r) + \<rho> (W i e 0) * eta_in (h r)
                              - \<rho> (W e (hd outs) 0) / eta_out (h r)))"
    using at [of 0] by simp
  have a1: "\<forall>t. 0 < t \<and> (e, t) \<in> set (indexset b) \<longrightarrow>
         (\<exists>c. map_of fam (e, t) = Some c \<and>
            (\<forall>\<rho>. sat \<rho> c \<longleftrightarrow>
               \<rho> (Cap e t) = \<rho> (Cap e (t - 1)) * (1 - cap_loss (h r)) + \<rho> (W i e t) * eta_in (h r)
                              - \<rho> (W e (hd outs) t) / eta_out (h r)))"
  proof (intro allI impI)
    fix t assume "0 < t \<and> (e, t) \<in> set (indexset b)"
    then show "\<exists>c. map_of fam (e, t) = Some c \<and>
            (\<forall>\<rho>. sat \<rho> c \<longleftrightarrow>
               \<rho> (Cap e t) = \<rho> (Cap e (t - 1)) * (1 - cap_loss (h r)) + \<rho> (W i e t) * eta_in (h r)
                              - \<rho> (W e (hd outs) t) / eta_out (h r))"
      using at [of t] by simp
  qed
  show ?thesis
    using fixd fx1 fam [unfolded ix] b' fx2 a0 a1 by blast
qed

theorem storage_balance_recursion_witness:
  "\<exists>m' b' b1 fam c0 c2.
     add_storage_balance ex_heap ex_model ex_storage_block = Inr (m', b') \<and>
     objs ex_storage_block = Some [16] \<and>
     distinct (map (\<lambda>x. uid (ex_heap x)) [16]) \<and>
     ''sto'' = uid (ex_heap 16) \<and> ''sto'' \<in> set (uids ex_storage_block) \<and>
     I_dict ex_model ''sto'' = Some ''bel'' \<and> O_dict ex_model ''sto'' = Some [''bel''] \<and>
     timesteps ex_model = [0..<3] \<and>
     (''sto'', 0) \<in> set (indexset ex_storage_block) \<and>
     (''sto'', 2) \<in> set (indexset ex_storage_block) \<and>
     fix_last_cap ex_model (attr_dict ex_heap [16] cap_initial) (uids ex_storage_block)
       ex_storage_block = Inr b1 \<and>
     cap_fixed_at b1 (''sto'', 2) 40 \<and>
     b' = b1\<lparr>balance := Some fam\<rparr> \<and>
     cap_fixed_at b' (''sto'', 2) 40 \<and>
     map_of fam (''sto'', 0) = Some c0 \<and>
     (\<forall>\<rho>. sat \<rho> c0 \<longleftrightarrow>
        \<rho> (Cap ''sto'' 0) = 40 + \<rho> (W ''bel'' ''sto'' 0) * (9 / 10) - \<rho> (W ''sto'' ''bel'' 0) / (8 / 10)) \<and>
     map_of fam (''sto'', 2) = Some c2 \<and>
     (\<forall>\<rho>. sat \<rho> c2 \<longleftrightarrow>
        \<rho> (Cap ''sto'' 2) = \<rho> (Cap ''sto'' 1) * (1 - 1 / 100) + \<rho> (W ''bel'' ''sto'' 2) * (9 / 10)
                          - \<rho> (W ''sto'' ''bel'' 2) / (8 / 10))"
proof -
  have "\<not> isl (add_storage_balance ex_heap ex_model ex_storage_block)"
    by code_simp
  then obtain m' b' where run: "add_storage_balance ex_heap ex_model ex_storage_block = Inr (m', b')"
    by (cases "add_storage_balance ex_heap ex_model ex_storage_block") auto
  have os: "objs ex_storage_block = Some [16]" "16 \<in> set [16 :: nat]"
    "distinct (map (\<lambda>x. uid (ex_heap x)) [16])"
    by (simp_all add: ex_storage_block_def block0_def)
  have e: "''sto'' = uid (ex_heap 16)" "''sto'' \<in> set (uids ex_storage_block)"
    by (simp_all add: ex_heap_def entity0_def ex_storage_block_def block0_def)
  have io: "I_dict ex_model ''sto'' = Some ''bel''" "O_dict ex_model ''sto'' = Some [''bel'']"
    by (simp_all add: ex_model_def)
  have ts: "timesteps ex_model = [0..<3]"
    by (simp add: ex_model_def upt_rec)
  have ix: "(''sto'', 0) \<in> set (indexset ex_storage_block)"
    "(''sto'', 2) \<in> set (indexset ex_storage_block)"
    by (simp_all add: ex_storage_block_def block0_def)
  have vals: "cap_initial (ex_heap 16) = 40" "cap_loss (ex_heap 16) = 1 / 100"
    "eta_in (ex_heap 16) = 9 / 10" "eta_out (ex_heap 16) = 8 / 10"
    "last (timesteps ex_model) = 2"
    by (simp_all add: ex_heap_def entity0_def ex_model_def)
  from storage_balance_recursion [OF run os e io ts]
  obtain b1 fam where
    A: "fix_last_cap ex_model (attr_dict ex_heap [16] cap_initial) (uids ex_storage_block)
       ex_storage_block = Inr b1"
    and B: "cap_fixed_at b1 (''sto'', last (timesteps ex_model)) (cap_initial (ex_heap 16))"
    and D: "b' = b1\<lparr>balance := Some fam\<rparr>"
    and E: "cap_fixed_at b' (''sto'', last (timesteps ex_model)) (cap_initial (ex_heap 16))"
    and F: "(''sto'', 0) \<in> set (indexset ex_storage_block) \<longrightarrow>
         (\<exists>c. map_of fam (''sto'', 0) = Some c \<and>
            (\<forall>\<rho>. sat \<rho> c \<longleftrightarrow>
               \<rho> (Cap ''sto'' 0) = cap_initial (ex_heap 16) + \<rho> (W ''bel'' ''sto'' 0) * eta_in (ex_heap 16)
                              - \<rho> (W ''sto'' ''bel'' 0) / eta_out (ex_heap 16)))"
    and G: "\<forall>t. 0 < t \<and> (''sto'', t) \<in> set (indexset ex_storage_block) \<longrightarrow>
         (\<exists>c. map_of fam (''sto'', t) = Some c \<and>
            (\<forall>\<rho>. sat \<rho> c \<longleftrightarrow>
               \<rho> (Cap ''sto'' t) = \<rho> (Cap ''sto'' (t - 1)) * (1 - cap_loss (ex_heap 16))
                              + \<rho> (W ''bel'' ''sto'' t) * eta_in (ex_heap 16)
                              - \<rho> (W ''sto'' ''bel'' t) / eta_out (ex_heap 16)))"
    unfolding list.sel by blast
  from F ix(1) obtain c0 where c0: "map_of fam (''sto'', 0) = Some c0"
    "\<forall>\<rho>. sat \<rho> c0 \<longleftrightarrow>
        \<rho> (Cap ''sto'' 0) = 40 + \<rho> (W ''bel'' ''sto'' 0) * (9 / 10) - \<rho> (W ''sto'' ''bel'' 0) / (8 / 10)"
    unfolding vals by blast
  have "0 < (2::nat) \<and> (''sto'', 2) \<in> set (indexset ex_storage_block)"
    using ix(2) by simp
  with G obtain c2 where c2: "map_of fam (''sto'', 2) = Some c2"
    "\<forall>\<rho>. sat \<rho> c2 \<longleftrightarrow>
        \<rho> (Cap ''sto'' 2) = \<rho> (Cap ''sto'' (2 - 1)) * (1 - 1 / 100) + \<rho> (W ''bel'' ''sto'' 2) * (9 / 10)
                          - \<rho> (W ''sto'' ''bel'' 2) / (8 / 10)"
    unfolding vals by blast
  have one: "(2::nat) - 1 = 1" by simp
  note B' = B [unfolded vals] and E' = E [unfolded vals] and c2' = c2 [unfolded one]
  show ?thesis
    by (intro exI conjI) (rule run os(1) os(3) e io ts ix A B' D E' c0 c2')+
qed

section \<open>The global output limit\<close>

lemma foldl_py_add_not_number: "\<not> is_number a \<Longrightarrow> \<not> is_number (foldl py_add a xs)"
proof (induction xs arbitrary: a)
  case Nil
  then show ?case by simp
next
  case (Cons x xs)
  have "\<not> is_number (py_add a x)"
    using Cons.prems by (cases a) (simp_all add: py_add_def)
  then show ?case using Cons.IH by simp
qed

lemma py_sum_Vars_number: "is_number (py_sum (map Var vs)) \<longleftrightarrow> vs = []"
proof (cases vs)
  case Nil
  then show ?thesis by (simp add: py_sum_def)
next
  case (Cons v vs')
  have "\<not> is_number (py_add (Num 0) (Var v))" by (simp add: py_add_def)
  then show ?thesis
    using foldl_py_add_not_number [of "py_add (Num 0) (Var v)" "map Var vs'"]
    by (simp add: py_sum_def Cons)
qed

lemma py_sub_Num_number: "is_number (py_sub a (Num x)) \<longleftrightarrow> is_number a"
  by (cases a) (simp_all add: py_sub_def)

lemma py_le_not_number: "\<not> is_number a \<Longrightarrow> py_le a b = Relation (Le a b)"
  by (cases a) (simp_all add: py_le_def)

lemma limit_outputs_Inr:
  "limit_outputs h r = Inr outs \<Longrightarrow>
   outs = map (\<lambda>ou. if cls (h ou) \<noteq> Transport then uid (h ou)
                     else uid (h (hd (outputs (h ou))))) (outputs (h r))"
  unfolding limit_outputs_def
  by (rule emap_eq_map) (auto simp: ebind_eq_Inr split: if_splits dest!: list_get_0)

lemma sum_list_concat_map:
  "sum_list (map f (concat (map g ts))) = (\<Sum>t\<leftarrow>ts. sum_list (map f (g t)))"
  by (induction ts) simp_all

text \<open>
  Claim C5, as amended. Let \<open>e\<close> be the uid of an object \<open>r\<close> of the block, listed in
  \<^verbatim>\<open>block.uids\<close>, and let \<open>dests\<close> be the uids of all its outputs, an output that is a
  transport standing for the uid of the transport's first output. Whenever
  \<^verbatim>\<open>add_global_output_limit\<close> completes, the constraint at \<open>e\<close> is skipped exactly when
  there is no timestep, or no output, or \<^verbatim>\<open>sum_out_limit(e)\<close> is infinite; otherwise the
  limit is a finite \<open>x\<close> and the constraint holds exactly when the sum over all timesteps
  and all of \<open>dests\<close> of \<^verbatim>\<open>W(e, d, t)\<close> is at most \<open>x\<close>.
\<close>

theorem global_output_limit:
  assumes run: "add_global_output_limit h m b = Inr (m', b')"
    and os: "objs b = Some os" "r \<in> set os" "distinct (map (\<lambda>x. uid (h x)) os)"
    and e: "e = uid (h r)" "e \<in> set (uids b)"
    and dests: "dests = map (\<lambda>ou. if cls (h ou) \<noteq> Transport then uid (h ou)
                                 else uid (h (hd (outputs (h ou))))) (outputs (h r))"
  shows "\<exists>fam. global_limit b' = Some fam \<and>
     (map_of fam e = None \<longleftrightarrow>
        timesteps m = [] \<or> dests = [] \<or> sum_out_limit (h r) = PInf) \<and>
     (\<forall>c. map_of fam e = Some c \<longrightarrow>
        (\<exists>x. sum_out_limit (h r) = Fin x \<and>
           (\<forall>\<rho>. sat \<rho> c \<longleftrightarrow> (\<Sum>t\<leftarrow>timesteps m. \<Sum>d\<leftarrow>dests. \<rho> (W e d t)) \<le> x)))"
proof -
  let ?dest = "\<lambda>x. map (\<lambda>ou. if cls (h ou) \<noteq> Transport then uid (h ou)
                                 else uid (h (hd (outputs (h ou))))) (outputs (h x))"
  let ?lim = "attr_dict h os sum_out_limit"
  from run obtain kvs fam
    where kvs: "emap (\<lambda>r. ebind (limit_outputs h r) (\<lambda>outs. Inr (uid (h r), outs))) os = Inr kvs"
      and fam: "Constraint (output_limit_rule m ?lim (dict_of kvs)) (uids b) = Inr fam"
      and b': "b' = b\<lparr>global_limit := Some fam\<rparr>"
    using os(1) unfolding add_global_output_limit_def
    by (auto simp: ebind_eq_Inr checked_objs_def Let_def split: if_splits)
  have kvs_eq: "kvs = map (\<lambda>x. (uid (h x), ?dest x)) os"
    using kvs by (rule emap_eq_map) (auto simp: ebind_eq_Inr dest!: limit_outputs_Inr)
  have Oe: "dict_get (dict_of kvs) e = Inr dests"
    unfolding kvs_eq using os(2,3) by (intro dict_get_distinct) (auto simp: comp_def e dests)
  have le: "dict_get ?lim e = Inr (sum_out_limit (h r))"
    using os(2,3) by (simp add: e(1) attr_dict_get)
  from Constraint_rule_ok [OF fam e(2)] obtain rr
    where rr: "output_limit_rule m ?lim (dict_of kvs) e = Inr rr"
    by blast
  have look: "map_of fam e = (case rr of Relation c \<Rightarrow> Some c | _ \<Rightarrow> None)"
    using Constraint_lookup [OF fam, of e] e(2) rr by simp
  from rr have "\<exists>wss. emap (\<lambda>t. emap (\<lambda>ou. w_ref m e ou t) dests) (timesteps m) = Inr wss \<and>
     (case sum_out_limit (h r) of
       PInf \<Rightarrow> Inr Skip
     | Fin x \<Rightarrow> (if is_number (py_sub (py_sum (concat wss)) (Num x)) then Inr Skip
               else Inr (py_le (py_sub (py_sum (concat wss)) (Num x)) (Num 0)))) = (Inr rr :: error + rule_result)"
    unfolding output_limit_rule_def
    by (simp add: ebind_eq_Inr Oe le Let_def)
  then obtain wss where wss: "emap (\<lambda>t. emap (\<lambda>ou. w_ref m e ou t) dests) (timesteps m) = Inr wss"
    and rr_case: "(case sum_out_limit (h r) of
       PInf \<Rightarrow> Inr Skip
     | Fin x \<Rightarrow> (if is_number (py_sub (py_sum (concat wss)) (Num x)) then Inr Skip
               else Inr (py_le (py_sub (py_sum (concat wss)) (Num x)) (Num 0)))) = (Inr rr :: error + rule_result)"
    by (elim exE conjE) (rule that)
  have rr_eq: "rr = (case sum_out_limit (h r) of
       PInf \<Rightarrow> Skip
     | Fin x \<Rightarrow> if is_number (py_sub (py_sum (concat wss)) (Num x)) then Skip
               else py_le (py_sub (py_sum (concat wss)) (Num x)) (Num 0))"
    using rr_case by (cases "sum_out_limit (h r)") (auto split: if_splits)
  have wss_eq: "wss = map (\<lambda>t. map (\<lambda>d. Var (W e d t)) dests) (timesteps m)"
    using wss
  proof (rule emap_eq_map)
    fix t ws
    assume "emap (\<lambda>ou. w_ref m e ou t) dests = Inr ws"
    then show "ws = map (\<lambda>d. Var (W e d t)) dests"
      by (rule emap_eq_map) (auto dest: w_ref_Inr)
  qed
  define vs where "vs = concat (map (\<lambda>t. map (\<lambda>d. W e d t) dests) (timesteps m))"
  have cc: "concat wss = map Var vs"
    by (simp add: wss_eq vs_def map_concat comp_def)
  have empty: "vs = [] \<longleftrightarrow> timesteps m = [] \<or> dests = []"
    by (auto simp: vs_def)
  have num: "is_number (py_sub (py_sum (concat wss)) (Num x)) \<longleftrightarrow> timesteps m = [] \<or> dests = []" for x
    by (simp add: py_sub_Num_number cc py_sum_Vars_number empty)
  have ev: "eval \<rho> (py_sub (py_sum (concat wss)) (Num x))
      = (\<Sum>t\<leftarrow>timesteps m. \<Sum>d\<leftarrow>dests. \<rho> (W e d t)) - x" for \<rho> x
    by (simp add: wss_eq sum_list_concat_map comp_def)
  have A: "global_limit b' = Some fam" by (simp add: b')
  have B: "map_of fam e = None \<longleftrightarrow>
        timesteps m = [] \<or> dests = [] \<or> sum_out_limit (h r) = PInf"
  proof (cases "sum_out_limit (h r)")
    case PInf
    then show ?thesis using look rr_eq by simp
  next
    case (Fin x)
    show ?thesis
    proof (cases "timesteps m = [] \<or> dests = []")
      case True
      then show ?thesis using look rr_eq Fin num [of x] by simp
    next
      case False
      then have "rr = Relation (Le (py_sub (py_sum (concat wss)) (Num x)) (Num 0))"
        using rr_eq Fin num [of x] by (simp add: py_le_not_number)
      then show ?thesis using look False Fin by simp
    qed
  qed
  have C: "\<exists>x. sum_out_limit (h r) = Fin x \<and>
           (\<forall>\<rho>. sat \<rho> c \<longleftrightarrow> (\<Sum>t\<leftarrow>timesteps m. \<Sum>d\<leftarrow>dests. \<rho> (W e d t)) \<le> x)"
    if c: "map_of fam e = Some c" for c
  proof (cases "sum_out_limit (h r)")
    case PInf
    then show ?thesis using look rr_eq c by simp
  next
    case (Fin x)
    have nn: "\<not> is_number (py_sub (py_sum (concat wss)) (Num x))"
      using look rr_eq c Fin by (auto split: if_splits)
    then have "rr = Relation (Le (py_sub (py_sum (concat wss)) (Num x)) (Num 0))"
      using rr_eq Fin by (simp add: py_le_not_number)
    then have "c = Le (py_sub (py_sum (concat wss)) (Num x)) (Num 0)"
      using look c by simp
    then have "sat \<rho> c \<longleftrightarrow> (\<Sum>t\<leftarrow>timesteps m. \<Sum>d\<leftarrow>dests. \<rho> (W e d t)) \<le> x" for \<rho>
      using ev [of \<rho> x] by simp
    then show ?thesis using Fin by simp
  qed
  show ?thesis
  proof (rule exI [of _ fam], intro conjI allI impI)
    show "global_limit b' = Some fam" by (rule A)
    show "map_of fam e = None \<longleftrightarrow>
        timesteps m = [] \<or> dests = [] \<or> sum_out_limit (h r) = PInf" by (rule B)
    fix c assume "map_of fam e = Some c"
    then show "\<exists>x. sum_out_limit (h r) = Fin x \<and>
           (\<forall>\<rho>. sat \<rho> c \<longleftrightarrow> (\<Sum>t\<leftarrow>timesteps m. \<Sum>d\<leftarrow>dests. \<rho> (W e d t)) \<le> x)"
      by (rule C)
  qed
qed

theorem global_output_limit_witness:
  "\<exists>m' b' fam c.
     add_global_output_limit ex_heap ex_model ex_limit_block = Inr (m', b') \<and>
     objs ex_limit_block = Some [12, 18] \<and>
     distinct (map (\<lambda>x. uid (ex_heap x)) [12, 18]) \<and>
     ''rgas'' = uid (ex_heap 12) \<and> ''rgas'' \<in> set (uids ex_limit_block) \<and>
     [''bgas''] = map (\<lambda>ou. if cls (ex_heap ou) \<noteq> Transport then uid (ex_heap ou)
                             else uid (ex_heap (hd (outputs (ex_heap ou))))) (outputs (ex_heap 12)) \<and>
     global_limit b' = Some fam \<and> map_of fam ''rgas'' = Some c \<and>
     (\<forall>\<rho>. sat \<rho> c \<longleftrightarrow>
        \<rho> (W ''rgas'' ''bgas'' 0) + (\<rho> (W ''rgas'' ''bgas'' 1) + \<rho> (W ''rgas'' ''bgas'' 2))
          \<le> 194397000)"
proof -
  have "\<not> isl (add_global_output_limit ex_heap ex_model ex_limit_block)"
    by code_simp
  then obtain m' b' where run: "add_global_output_limit ex_heap ex_model ex_limit_block = Inr (m', b')"
    by (cases "add_global_output_limit ex_heap ex_model ex_limit_block") auto
  have os: "objs ex_limit_block = Some [12, 18]" "12 \<in> set [12, 18 :: nat]"
    "distinct (map (\<lambda>x. uid (ex_heap x)) [12, 18])"
    by (simp_all add: ex_limit_block_def block0_def ex_heap_def entity0_def)
  have e: "''rgas'' = uid (ex_heap 12)" "''rgas'' \<in> set (uids ex_limit_block)"
    by (simp_all add: ex_heap_def entity0_def ex_limit_block_def block0_def)
  have dests: "[''bgas''] = map (\<lambda>ou. if cls (ex_heap ou) \<noteq> Transport then uid (ex_heap ou)
                             else uid (ex_heap (hd (outputs (ex_heap ou))))) (outputs (ex_heap 12))"
    by (simp add: ex_heap_def entity0_def)
  have vals: "sum_out_limit (ex_heap 12) = Fin 194397000" "timesteps ex_model = [0, 1, 2]"
    by (simp_all add: ex_heap_def entity0_def ex_model_def)
  from global_output_limit [OF run os e dests]
  obtain fam where fam: "global_limit b' = Some fam"
    and skip: "map_of fam ''rgas'' = None \<longleftrightarrow>
        timesteps ex_model = [] \<or> [''bgas''] = ([] :: uid list) \<or> sum_out_limit (ex_heap 12) = PInf"
    and emit: "\<forall>c. map_of fam ''rgas'' = Some c \<longrightarrow>
        (\<exists>x. sum_out_limit (ex_heap 12) = Fin x \<and>
           (\<forall>\<rho>. sat \<rho> c \<longleftrightarrow> (\<Sum>t\<leftarrow>timesteps ex_model. \<Sum>d\<leftarrow>[''bgas'']. \<rho> (W ''rgas'' d t)) \<le> x))"
    by (elim exE conjE) (rule that)
  from skip obtain c where c: "map_of fam ''rgas'' = Some c"
    unfolding vals by auto
  with emit have sem: "\<forall>\<rho>. sat \<rho> c \<longleftrightarrow>
        \<rho> (W ''rgas'' ''bgas'' 0) + (\<rho> (W ''rgas'' ''bgas'' 1) + \<rho> (W ''rgas'' ''bgas'' 2))
          \<le> 194397000"
    unfolding vals by auto
  show ?thesis
    by (intro exI conjI) (rule run os(1) os(3) e dests fam c sem)+
qed

text \<open>
  Claim C5 as stated sums over the outputs that are not transports. The only output of
  the bus \<^verbatim>\<open>bel2\<close> of the example is the transport \<^verbatim>\<open>line2\<close>, so that sum has no term
  and the claim has the constraint skipped; the generator emits the constraint on the
  flows from \<^verbatim>\<open>bel2\<close> to \<^verbatim>\<open>bth\<close>, the bus at the end of the transport.
\<close>

theorem global_output_limit_counterexample:
  "outputs (ex_heap 18) = [20] \<and> cls (ex_heap 20) = Transport \<and>
   sum_out_limit (ex_heap 18) = Fin 1000 \<and>
   limit_constraint (add_global_output_limit ex_heap ex_model ex_limit_block) ''bel2'' =
     Some (Le (Sub (Add (Add (Add (Num 0) (Var (W ''bel2'' ''bth'' 0))) (Var (W ''bel2'' ''bth'' 1)))
                        (Var (W ''bel2'' ''bth'' 2)))
                   (Num 1000))
              (Num 0))"
proof -
  have "limit_constraint (add_global_output_limit ex_heap ex_model ex_limit_block) ''bel2'' =
     Some (Le (Sub (Add (Add (Add (Num 0) (Var (W ''bel2'' ''bth'' 0))) (Var (W ''bel2'' ''bth'' 1)))
                        (Var (W ''bel2'' ''bth'' 2)))
                   (Num 1000))
              (Num 0))"
    by code_simp
  then show ?thesis
    by (simp add: ex_heap_def entity0_def)
qed

section \<open>Fixed sources without investment\<close>

lemma eloop_establish:
  assumes "eloop body xs s = Inr s'" and "x \<in> set xs"
    and est: "\<And>a a'. body x a = Inr a' \<Longrightarrow> Q a'"
    and pres: "\<And>y a a'. y \<in> set xs \<Longrightarrow> Q a \<Longrightarrow> body y a = Inr a' \<Longrightarrow> Q a'"
  shows "Q s'"
  using assms(1,2) pres
proof (induction xs arbitrary: s)
  case Nil
  then show ?case by simp
next
  case (Cons y xs)
  from Cons.prems(1) obtain a where a: "body y s = Inr a" and rest: "eloop body xs a = Inr s'"
    by (auto simp: ebind_eq_Inr)
  show ?case
  proof (cases "x = y")
    case True
    then have "Q a" using est a by simp
    with rest show ?thesis
      by (rule eloop_invariant) (use Cons.prems(3) in auto)
  next
    case False
    then have "x \<in> set xs" using Cons.prems(2) by simp
    then show ?thesis using Cons.IH [OF rest] Cons.prems(3) by auto
  qed
qed

lemma list_get_nat: "list_get xs (int t) = Inr v \<Longrightarrow> t < length xs \<and> v = xs ! t"
  by (auto simp: list_get_def split: if_splits)

lemma scaled_val_attr:
  assumes "scaled_val (attr_dict h os val) (attr_dict h os out_max) (uid (h r)) t = Inr x"
    and "distinct (map (\<lambda>x. uid (h x)) os)" "r \<in> set os"
  shows "\<exists>c. getitem (out_max (h r)) (KInt 0) = Inr c \<and> t < length (val (h r)) \<and>
             x = val (h r) ! t * c"
  using assms(1) unfolding scaled_val_def
  by (auto simp: ebind_eq_Inr attr_dict_get [OF assms(2,3)] dest!: list_get_nat)

lemma edges_output:
  "r \<in> set os \<Longrightarrow> ou \<in> set (outputs (h r)) \<Longrightarrow> (uid (h r), uid (h ou)) \<in> set (edges h os)"
  by (auto simp: edges_def)

lemma w_set_Inr:
  "w_set k x a = Inr a' \<Longrightarrow> \<exists>info. w a k = Some info \<and> a' = a\<lparr>w := (w a)(k \<mapsto> info\<lparr>v_val := Some x\<rparr>)\<rparr>"
  unfolding w_set_def by (cases "w a k") (simp_all add: upd_var_def)

lemma w_fix_Inr:
  "w_fix k a = Inr a' \<Longrightarrow> \<exists>info. w a k = Some info \<and> a' = a\<lparr>w := (w a)(k \<mapsto> info\<lparr>v_fixed := True\<rparr>)\<rparr>"
  unfolding w_fix_def by (cases "w a k") (simp_all add: upd_var_def)

lemma w_setub_Inr:
  "w_setub k x a = Inr a' \<Longrightarrow> \<exists>info. w a k = Some info \<and> a' = a\<lparr>w := (w a)(k \<mapsto> info\<lparr>v_ub := Some x\<rparr>)\<rparr>"
  unfolding w_setub_def by (cases "w a k") (simp_all add: upd_var_def)

lemma ebind_InrE:
  assumes "ebind x f = Inr y"
  obtains a where "x = Inr a" and "f a = Inr y"
  using assms by (cases x) simp_all

lemma nested_loop_establish:
  assumes run: "eloop (\<lambda>(e1, e2). eloop (step e1 e2) ts) ee s = Inr s'"
    and k: "(e1, e2) \<in> set ee" "t \<in> set ts"
    and est: "\<And>a a'. step e1 e2 t a = Inr a' \<Longrightarrow> Q a'"
    and pres: "\<And>y1 y2 u a a'. Q a \<Longrightarrow> step y1 y2 u a = Inr a' \<Longrightarrow> Q a'"
  shows "Q s'"
  using run k(1)
proof (rule eloop_establish)
  fix a a'
  assume "(case (e1, e2) of (e1, e2) \<Rightarrow> eloop (step e1 e2) ts) a = Inr a'"
  then have "eloop (step e1 e2) ts a = Inr a'" by simp
  then show "Q a'"
    using k(2)
  proof (rule eloop_establish)
    show "\<And>a a'. step e1 e2 t a = Inr a' \<Longrightarrow> Q a'" by (rule est)
    show "\<And>y a a'. Q a \<Longrightarrow> step e1 e2 y a = Inr a' \<Longrightarrow> Q a'" by (rule pres)
  qed
next
  fix y a a'
  assume q: "Q a" and st: "(case y of (e1, e2) \<Rightarrow> eloop (step e1 e2) ts) a = Inr a'"
  obtain y1 y2 where y: "y = (y1, y2)" by (cases y)
  from st have "eloop (step y1 y2) ts a = Inr a'" by (simp add: y)
  then show "Q a'"
    using q
  proof (rule eloop_invariant)
    show "\<And>x a a'. Q a \<Longrightarrow> step y1 y2 x a = Inr a' \<Longrightarrow> Q a'" by (rule pres)
  qed
qed

lemma nested_loop_invariant:
  assumes run: "eloop (\<lambda>(e1, e2). eloop (step e1 e2) ts) ee s = Inr s'"
    and start: "P s"
    and pres: "\<And>y1 y2 u a a'. P a \<Longrightarrow> step y1 y2 u a = Inr a' \<Longrightarrow> P a'"
  shows "P s'"
  using run start
proof (rule eloop_invariant)
  fix y a a'
  assume q: "P a" and st: "(case y of (e1, e2) \<Rightarrow> eloop (step e1 e2) ts) a = Inr a'"
  obtain y1 y2 where y: "y = (y1, y2)" by (cases y)
  from st have "eloop (step y1 y2) ts a = Inr a'" by (simp add: y)
  then show "P a'"
    using q
  proof (rule eloop_invariant)
    show "\<And>x a a'. P a \<Longrightarrow> step y1 y2 x a = Inr a' \<Longrightarrow> P a'" by (rule pres)
  qed
qed

lemma fix_flow_Inr:
  assumes "fix_flow vd od e1 e2 t a = Inr a'"
  shows "\<exists>x info. scaled_val vd od e1 t = Inr x \<and> w a (e1, e2, t) = Some info \<and>
           a' = a\<lparr>w := (w a)((e1, e2, t) \<mapsto> info\<lparr>v_val := Some x, v_fixed := True\<rparr>)\<rparr>"
proof -
  from assms obtain x where x: "scaled_val vd od e1 t = Inr x"
    and r1: "ebind (w_set (e1, e2, t) x a) (\<lambda>m'. w_fix (e1, e2, t) m') = Inr a'"
    unfolding fix_flow_def by (rule ebind_InrE)
  from r1 obtain a1 where s1: "w_set (e1, e2, t) x a = Inr a1" and s2: "w_fix (e1, e2, t) a1 = Inr a'"
    by (rule ebind_InrE)
  from w_set_Inr [OF s1] obtain info where i1: "w a (e1, e2, t) = Some info"
    and a1: "a1 = a\<lparr>w := (w a)((e1, e2, t) \<mapsto> info\<lparr>v_val := Some x\<rparr>)\<rparr>"
    by blast
  from w_fix_Inr [OF s2] have "a' = a\<lparr>w := (w a)((e1, e2, t) \<mapsto> info\<lparr>v_val := Some x, v_fixed := True\<rparr>)\<rparr>"
    by (simp add: a1)
  with x i1 show ?thesis by blast
qed

lemma flow_fixed_at_upd:
  assumes "flow_fixed_at s k x"
    and "k' = k \<Longrightarrow> x' = x"
  shows "flow_fixed_at (s\<lparr>w := (w s)(k' \<mapsto> info\<lparr>v_val := Some x', v_fixed := True\<rparr>)\<rparr>) k x"
  using assms by (cases "k' = k") (simp_all add: flow_fixed_at_def)

lemma fix_flows_fixed:
  assumes run: "fix_flows vd od ee m = Inr m'"
    and k: "(e1, e2) \<in> set ee" "t \<in> set (timesteps m)"
  shows "\<exists>x. scaled_val vd od e1 t = Inr x \<and> flow_fixed_at m' (e1, e2, t) x"
  using run [unfolded fix_flows_def] k
proof (rule nested_loop_establish)
  fix a a'
  assume "fix_flow vd od e1 e2 t a = Inr a'"
  from fix_flow_Inr [OF this] obtain x info where x: "scaled_val vd od e1 t = Inr x"
    and a': "a' = a\<lparr>w := (w a)((e1, e2, t) \<mapsto> info\<lparr>v_val := Some x, v_fixed := True\<rparr>)\<rparr>"
    by blast
  have "flow_fixed_at a' (e1, e2, t) x"
    by (simp add: a' flow_fixed_at_def)
  with x show "\<exists>x. scaled_val vd od e1 t = Inr x \<and> flow_fixed_at a' (e1, e2, t) x"
    by blast
next
  fix y1 y2 u a a'
  assume q: "\<exists>x. scaled_val vd od e1 t = Inr x \<and> flow_fixed_at a (e1, e2, t) x"
    and st: "fix_flow vd od y1 y2 u a = Inr a'"
  from q obtain x where x: "scaled_val vd od e1 t = Inr x" "flow_fixed_at a (e1, e2, t) x"
    by blast
  from fix_flow_Inr [OF st] obtain x' info where x': "scaled_val vd od y1 u = Inr x'"
    and a': "a' = a\<lparr>w := (w a)((y1, y2, u) \<mapsto> info\<lparr>v_val := Some x', v_fixed := True\<rparr>)\<rparr>"
    by blast
  have "x' = x" if "(y1, y2, u) = (e1, e2, t)"
    using that x' x(1) by simp
  then have "flow_fixed_at a' (e1, e2, t) x"
    unfolding a' using x(2) by (intro flow_fixed_at_upd)
  with x(1) show "\<exists>x. scaled_val vd od e1 t = Inr x \<and> flow_fixed_at a' (e1, e2, t) x"
    by blast
qed

text \<open>
  Claim C6. Without investment, whenever \<^verbatim>\<open>add_fixed_source\<close> completes, for every
  source \<open>r\<close> of the block, every output \<open>ou\<close> of it and every timestep \<open>t\<close> the flow
  variable of the edge from the source to the output has the value
  \<^verbatim>\<open>val[t] * out_max[0]\<close> of the source and is fixed; the block is returned as it was,
  so no constraint is added.
\<close>

theorem fixed_source_flows:
  assumes run: "add_fixed_source h m b = Inr (m', b')"
    and ni: "\<not> investment b"
    and os: "objs b = Some os" "r \<in> set os" "distinct (map (\<lambda>x. uid (h x)) os)"
    and ou: "ou \<in> set (outputs (h r))" and t: "t \<in> set (timesteps m)"
  shows "b' = b \<and>
     (\<exists>c. getitem (out_max (h r)) (KInt 0) = Inr c \<and> t < length (val (h r)) \<and>
          flow_fixed_at m' (uid (h r), uid (h ou), t) (val (h r) ! t * c))"
proof -
  have chk: "checked_objs b = Inr os"
    using os(1,2) by (auto simp: checked_objs_def)
  from run have "ebind (fix_flows (attr_dict h os val) (attr_dict h os out_max) (edges h os) m)
      (\<lambda>m'. Inr (m', b)) = Inr (m', b')"
    unfolding add_fixed_source_def chk ebind_Inr Let_def using ni by simp
  then obtain m1 where ff: "fix_flows (attr_dict h os val) (attr_dict h os out_max) (edges h os) m = Inr m1"
    and res: "Inr (m1, b) = (Inr (m', b') :: error + model \<times> block)"
    by (rule ebind_InrE)
  from res have m1: "m1 = m'" and b': "b' = b" by simp_all
  have edge: "(uid (h r), uid (h ou)) \<in> set (edges h os)"
    using os(2) ou by (rule edges_output)
  from fix_flows_fixed [OF ff [unfolded m1] edge t]
  obtain x where x: "scaled_val (attr_dict h os val) (attr_dict h os out_max) (uid (h r)) t = Inr x"
    and fx: "flow_fixed_at m' (uid (h r), uid (h ou), t) x"
    by blast
  from scaled_val_attr [OF x os(3,2)] obtain c where "getitem (out_max (h r)) (KInt 0) = Inr c"
    "t < length (val (h r))" "x = val (h r) ! t * c"
    by blast
  with fx b' show ?thesis
    by blast
qed

theorem fixed_source_flows_witness:
  "\<exists>m' b'. add_fixed_source ex_heap ex_model ex_source_block = Inr (m', b') \<and>
     \<not> investment ex_source_block \<and> objs ex_source_block = Some [13] \<and>
     distinct (map (\<lambda>x. uid (ex_heap x)) [13]) \<and>
     11 \<in> set (outputs (ex_heap 13)) \<and> 2 \<in> set (timesteps ex_model) \<and>
     b' = ex_source_block \<and>
     getitem (out_max (ex_heap 13)) (KInt 0) = Inr 1000000 \<and>
     flow_fixed_at m' (''wind'', ''bel'', 2) 750000"
proof -
  have "\<not> isl (add_fixed_source ex_heap ex_model ex_source_block)"
    by code_simp
  then obtain m' b' where run: "add_fixed_source ex_heap ex_model ex_source_block = Inr (m', b')"
    by (cases "add_fixed_source ex_heap ex_model ex_source_block") auto
  have ni: "\<not> investment ex_source_block"
    by (simp add: investment_def ex_source_block_def block0_def)
  have os: "objs ex_source_block = Some [13]" "13 \<in> set [13 :: nat]"
    "distinct (map (\<lambda>x. uid (ex_heap x)) [13])"
    by (simp_all add: ex_source_block_def block0_def)
  have ou: "11 \<in> set (outputs (ex_heap 13))"
    by (simp add: ex_heap_def entity0_def)
  have t: "2 \<in> set (timesteps ex_model)"
    by (simp add: ex_model_def)
  have vals: "uid (ex_heap 13) = ''wind''" "uid (ex_heap 11) = ''bel''"
    "val (ex_heap 13) ! 2 = 3 / 4"
    by (simp_all add: ex_heap_def entity0_def)
  have c: "getitem (out_max (ex_heap 13)) (KInt 0) = Inr 1000000"
    by (simp add: ex_heap_def entity0_def list_get_def)
  from fixed_source_flows [OF run ni os ou t]
  have b': "b' = ex_source_block" and fx: "flow_fixed_at m' (''wind'', ''bel'', 2) 750000"
    unfolding vals c by auto
  show ?thesis
    by (intro exI conjI) (rule run ni os(1) os(3) ou t b' c fx)+
qed

section \<open>Dispatchable sources\<close>

lemma bound_flow_Inr:
  assumes "bound_flow vd od e1 e2 t a = Inr a'"
  shows "\<exists>x info. scaled_val vd od e1 t = Inr x \<and> w a (e1, e2, t) = Some info \<and>
           a' = a\<lparr>w := (w a)((e1, e2, t) \<mapsto> info\<lparr>v_ub := Some x\<rparr>)\<rparr>"
proof (cases "w a (e1, e2, t)")
  case None
  then show ?thesis using assms by (simp add: bound_flow_def)
next
  case (Some info)
  with assms have "ebind (scaled_val vd od e1 t) (\<lambda>x. w_setub (e1, e2, t) x a) = Inr a'"
    by (simp add: bound_flow_def)
  then obtain x where x: "scaled_val vd od e1 t = Inr x" and s: "w_setub (e1, e2, t) x a = Inr a'"
    by (rule ebind_InrE)
  from w_setub_Inr [OF s] Some have "a' = a\<lparr>w := (w a)((e1, e2, t) \<mapsto> info\<lparr>v_ub := Some x\<rparr>)\<rparr>"
    by auto
  with x Some show ?thesis by blast
qed

lemma flow_ub_at_upd:
  assumes "flow_ub_at s k x"
    and "k' = k \<Longrightarrow> x' = x"
  shows "flow_ub_at (s\<lparr>w := (w s)(k' \<mapsto> info\<lparr>v_ub := Some x'\<rparr>)\<rparr>) k x"
  using assms by (cases "k' = k") (simp_all add: flow_ub_at_def)

lemma bound_flows_ub:
  assumes run: "bound_flows vd od ee m = Inr m'"
    and k: "(e1, e2) \<in> set ee" "t \<in> set (timesteps m)"
  shows "\<exists>x. scaled_val vd od e1 t = Inr x \<and> flow_ub_at m' (e1, e2, t) x"
  using run [unfolded bound_flows_def] k
proof (rule nested_loop_establish)
  fix a a'
  assume "bound_flow vd od e1 e2 t a = Inr a'"
  from bound_flow_Inr [OF this] obtain x info where x: "scaled_val vd od e1 t = Inr x"
    and a': "a' = a\<lparr>w := (w a)((e1, e2, t) \<mapsto> info\<lparr>v_ub := Some x\<rparr>)\<rparr>"
    by blast
  have "flow_ub_at a' (e1, e2, t) x"
    by (simp add: a' flow_ub_at_def)
  with x show "\<exists>x. scaled_val vd od e1 t = Inr x \<and> flow_ub_at a' (e1, e2, t) x"
    by blast
next
  fix y1 y2 u a a'
  assume q: "\<exists>x. scaled_val vd od e1 t = Inr x \<and> flow_ub_at a (e1, e2, t) x"
    and st: "bound_flow vd od y1 y2 u a = Inr a'"
  from q obtain x where x: "scaled_val vd od e1 t = Inr x" "flow_ub_at a (e1, e2, t) x"
    by blast
  from bound_flow_Inr [OF st] obtain x' info where x': "scaled_val vd od y1 u = Inr x'"
    and a': "a' = a\<lparr>w := (w a)((y1, y2, u) \<mapsto> info\<lparr>v_ub := Some x'\<rparr>)\<rparr>"
    by blast
  have "x' = x" if "(y1, y2, u) = (e1, e2, t)"
    using that x' x(1) by simp
  then have "flow_ub_at a' (e1, e2, t) x"
    unfolding a' using x(2) by (intro flow_ub_at_upd)
  with x(1) show "\<exists>x. scaled_val vd od e1 t = Inr x \<and> flow_ub_at a' (e1, e2, t) x"
    by blast
qed

lemma bound_flows_frame:
  assumes run: "bound_flows vd od ee m = Inr m'"
  shows "\<exists>c. m' = m\<lparr>w := c\<rparr>"
  using run [unfolded bound_flows_def]
proof (rule nested_loop_invariant)
  show "\<exists>c. m = m\<lparr>w := c\<rparr>"
    by (rule exI [of _ "w m"]) simp
next
  fix y1 y2 u a a'
  assume "\<exists>c. a = m\<lparr>w := c\<rparr>" and st: "bound_flow vd od y1 y2 u a = Inr a'"
  then obtain c where a: "a = m\<lparr>w := c\<rparr>" by blast
  from bound_flow_Inr [OF st] obtain c' where "a' = a\<lparr>w := c'\<rparr>" by blast
  then have "a' = m\<lparr>w := c'\<rparr>" by (simp add: a)
  then show "\<exists>c. a' = m\<lparr>w := c\<rparr>" by blast
qed

lemma Var_nonneg_lookup:
  "Var_nonneg bound idx = Inr vs \<Longrightarrow> i \<in> set idx \<Longrightarrow>
   \<exists>u. bound i = Inr u \<and>
       map_of vs i = Some \<lparr>v_val = None, v_fixed = False, v_lb = Some 0, v_ub = u\<rparr>"
  unfolding Var_nonneg_def
proof (induction idx arbitrary: vs)
  case Nil
  then show ?case by simp
next
  case (Cons j idx)
  from Cons.prems(1) have "ebind (ebind (bound j) (\<lambda>u.
             Inr (j, \<lparr>v_val = None, v_fixed = False, v_lb = Some 0, v_ub = u\<rparr>)))
        (\<lambda>y. ebind (emap (\<lambda>i. ebind (bound i) (\<lambda>u.
             Inr (i, \<lparr>v_val = None, v_fixed = False, v_lb = Some 0, v_ub = u\<rparr>))) idx)
           (\<lambda>ys. Inr (y # ys))) = Inr vs"
    by simp
  then obtain y where y: "ebind (bound j) (\<lambda>u.
             Inr (j, \<lparr>v_val = None, v_fixed = False, v_lb = Some 0, v_ub = u\<rparr>)) = Inr y"
    and r1: "ebind (emap (\<lambda>i. ebind (bound i) (\<lambda>u.
             Inr (i, \<lparr>v_val = None, v_fixed = False, v_lb = Some 0, v_ub = u\<rparr>))) idx)
           (\<lambda>ys. Inr (y # ys)) = Inr vs"
    by (rule ebind_InrE)
  from r1 obtain ys where ys: "emap (\<lambda>i. ebind (bound i) (\<lambda>u.
             Inr (i, \<lparr>v_val = None, v_fixed = False, v_lb = Some 0, v_ub = u\<rparr>))) idx = Inr ys"
    and vs: "Inr (y # ys) = (Inr vs :: error + ('a \<times> varinfo) list)"
    by (rule ebind_InrE)
  from y obtain u where u: "bound j = Inr u"
    and yu: "Inr (j, \<lparr>v_val = None, v_fixed = False, v_lb = Some 0, v_ub = u\<rparr>)
               = (Inr y :: error + 'a \<times> varinfo)"
    by (rule ebind_InrE)
  have vs_eq: "vs = (j, \<lparr>v_val = None, v_fixed = False, v_lb = Some 0, v_ub = u\<rparr>) # ys"
    using vs yu by auto
  show ?case
  proof (cases "i = j")
    case True
    then show ?thesis using u vs_eq by simp
  next
    case False
    then have "i \<in> set idx" using Cons.prems(2) by simp
    from Cons.IH [OF ys this] show ?thesis using False vs_eq by simp
  qed
qed

text \<open>
  Claim C8. Whenever \<^verbatim>\<open>add_dispatch_source\<close> completes, for a source \<open>r\<close> of the block
  with uid \<open>e\<close> and an index \<open>(e, t)\<close>: the flow to every output of the source has the
  upper bound \<^verbatim>\<open>val[t] * out_max[0]\<close>, the curtailment variable at \<open>(e, t)\<close> is declared
  with lower bound 0 and no upper bound, the constraint at \<open>(e, t)\<close> holds exactly when
  \<^verbatim>\<open>CURTAIL(e,t) = val[t] * out_max[0] - W(e, O[e][0], t)\<close>, and hence an assignment
  that satisfies the constraint and the bounds of the curtailment variable has
  curtailment plus flow equal to \<^verbatim>\<open>val[t] * out_max[0]\<close> and curtailment at least 0.
\<close>

theorem dispatch_source:
  assumes run: "add_dispatch_source h m b = Inr (m', b')"
    and os: "objs b = Some os" "r \<in> set os" "distinct (map (\<lambda>x. uid (h x)) os)"
    and e: "e = uid (h r)" "(e, t) \<in> set (indexset b)"
    and ou: "ou \<in> set (outputs (h r))" and t: "t \<in> set (timesteps m)"
    and O: "O_dict m e = Some outs"
  shows "\<exists>c cv fam cn.
      getitem (out_max (h r)) (KInt 0) = Inr c \<and> t < length (val (h r)) \<and>
      flow_ub_at m' (e, uid (h ou), t) (val (h r) ! t * c) \<and>
      curtailment_var b' = Some cv \<and>
      map_of cv (e, t) = Some \<lparr>v_val = None, v_fixed = False, v_lb = Some 0, v_ub = None\<rparr> \<and>
      curtailment b' = Some fam \<and> map_of fam (e, t) = Some cn \<and>
      (\<forall>\<rho>. sat \<rho> cn \<longleftrightarrow>
         \<rho> (Curtailment_var e t) = val (h r) ! t * c - \<rho> (W e (hd outs) t)) \<and>
      (\<forall>\<rho>. sat \<rho> cn \<and>
           within_bounds \<rho> (Curtailment_var e t)
             \<lparr>v_val = None, v_fixed = False, v_lb = Some 0, v_ub = None\<rparr> \<longrightarrow>
         \<rho> (Curtailment_var e t) + \<rho> (W e (hd outs) t) = val (h r) ! t * c \<and>
         0 \<le> \<rho> (Curtailment_var e t))"
proof -
  let ?vd = "attr_dict h os val" and ?od = "attr_dict h os out_max"
  let ?info = "\<lparr>v_val = None, v_fixed = False, v_lb = Some 0, v_ub = None\<rparr>"
  have chk: "checked_objs b = Inr os"
    using os(1,2) by (auto simp: checked_objs_def)
  from run have "ebind (Var_nonneg (\<lambda>i. Inr None) (indexset b)) (\<lambda>cv.
      ebind (bound_flows ?vd ?od (edges h os) m) (\<lambda>m'.
        ebind (Constraint (curtailment_source_rule m' cv ?vd ?od) (indexset b)) (\<lambda>fam.
        Inr (m', b\<lparr>curtailment_var := Some cv, curtailment := Some fam\<rparr>)))) = Inr (m', b')"
    unfolding add_dispatch_source_def chk ebind_Inr Let_def .
  then obtain cv where cv: "Var_nonneg (\<lambda>i. Inr None) (indexset b) = Inr cv"
    and r1: "ebind (bound_flows ?vd ?od (edges h os) m) (\<lambda>m'.
        ebind (Constraint (curtailment_source_rule m' cv ?vd ?od) (indexset b)) (\<lambda>fam.
        Inr (m', b\<lparr>curtailment_var := Some cv, curtailment := Some fam\<rparr>))) = Inr (m', b')"
    by (rule ebind_InrE)
  from r1 obtain m1 where bf: "bound_flows ?vd ?od (edges h os) m = Inr m1"
    and r2: "ebind (Constraint (curtailment_source_rule m1 cv ?vd ?od) (indexset b)) (\<lambda>fam.
        Inr (m1, b\<lparr>curtailment_var := Some cv, curtailment := Some fam\<rparr>)) = Inr (m', b')"
    by (rule ebind_InrE)
  from r2 obtain fam where fam: "Constraint (curtailment_source_rule m1 cv ?vd ?od) (indexset b) = Inr fam"
    and res: "Inr (m1, b\<lparr>curtailment_var := Some cv, curtailment := Some fam\<rparr>)
                = (Inr (m', b') :: error + model \<times> block)"
    by (rule ebind_InrE)
  from res have m1: "m1 = m'" and b': "b' = b\<lparr>curtailment_var := Some cv, curtailment := Some fam\<rparr>"
    by simp_all
  have edge: "(uid (h r), uid (h ou)) \<in> set (edges h os)"
    using os(2) ou by (rule edges_output)
  from bound_flows_ub [OF bf edge t] obtain x
    where x: "scaled_val ?vd ?od (uid (h r)) t = Inr x"
      and ub: "flow_ub_at m1 (uid (h r), uid (h ou), t) x"
    by blast
  from scaled_val_attr [OF x os(3,2)] obtain c where c: "getitem (out_max (h r)) (KInt 0) = Inr c"
    "t < length (val (h r))" and xc: "x = val (h r) ! t * c"
    by blast
  from bound_flows_frame [OF bf] obtain wc where "m1 = m\<lparr>w := wc\<rparr>" ..
  then have O1: "O_dict m1 e = Some outs" using O by simp
  from Var_nonneg_lookup [OF cv e(2)] have cvi: "map_of cv (e, t) = Some ?info"
    by auto
  from Constraint_rule_ok [OF fam e(2)] obtain rr
    where rr: "curtailment_source_rule m1 cv ?vd ?od (e, t) = Inr rr" and nb: "\<forall>v. rr \<noteq> PyBool v"
    by blast
  have look: "map_of fam (e, t) = (case rr of Relation c \<Rightarrow> Some c | _ \<Rightarrow> None)"
    using Constraint_lookup [OF fam, of "(e, t)"] e(2) rr by simp
  from rr have "ebind (var_ref (map_of cv) (e, t) (Curtailment_var e t)) (\<lambda>lhs.
     ebind (scaled_val ?vd ?od e t) (\<lambda>x.
     ebind (w_out m1 e 0 t) (\<lambda>wo.
     Inr (py_eq lhs (py_sub (Num x) wo))))) = Inr rr"
    by (simp add: curtailment_source_rule_def)
  then obtain lhs where lhs: "var_ref (map_of cv) (e, t) (Curtailment_var e t) = Inr lhs"
    and r3: "ebind (scaled_val ?vd ?od e t) (\<lambda>x.
     ebind (w_out m1 e 0 t) (\<lambda>wo.
     Inr (py_eq lhs (py_sub (Num x) wo)))) = Inr rr"
    by (rule ebind_InrE)
  from r3 have "ebind (w_out m1 e 0 t) (\<lambda>wo. Inr (py_eq lhs (py_sub (Num x) wo))) = Inr rr"
    using x by (simp add: e(1))
  then obtain wo where wo: "w_out m1 e 0 t = Inr wo"
    and rr': "Inr (py_eq lhs (py_sub (Num x) wo)) = (Inr rr :: error + rule_result)"
    by (rule ebind_InrE)
  have lhs_eq: "lhs = Var (Curtailment_var e t)" using lhs by (rule var_ref_Inr)
  have wo_eq: "wo = Var (W e (hd outs) t)" using wo O1 by (rule w_out_Inr)
  have rr_eq: "rr = Relation (Eq (Var (Curtailment_var e t)) (Sub (Num x) (Var (W e (hd outs) t))))"
    using rr' by (simp add: lhs_eq wo_eq py_eq_def py_sub_def)
  let ?cn = "Eq (Var (Curtailment_var e t)) (Sub (Num x) (Var (W e (hd outs) t)))"
  have cn: "map_of fam (e, t) = Some ?cn"
    using look rr_eq by simp
  have sem: "\<forall>\<rho>. sat \<rho> ?cn \<longleftrightarrow>
         \<rho> (Curtailment_var e t) = val (h r) ! t * c - \<rho> (W e (hd outs) t)"
    by (simp add: xc)
  have sol: "\<forall>\<rho>. sat \<rho> ?cn \<and> within_bounds \<rho> (Curtailment_var e t) ?info \<longrightarrow>
         \<rho> (Curtailment_var e t) + \<rho> (W e (hd outs) t) = val (h r) ! t * c \<and>
         0 \<le> \<rho> (Curtailment_var e t)"
    by (simp add: xc within_bounds_def)
  have ub': "flow_ub_at m' (e, uid (h ou), t) (val (h r) ! t * c)"
    using ub by (simp add: m1 e(1) xc)
  have cvb: "curtailment_var b' = Some cv" and fb: "curtailment b' = Some fam"
    by (simp_all add: b')
  show ?thesis
    by (intro exI conjI) (rule c ub' cvb cvi fb cn sem sol)+
qed

theorem dispatch_source_witness:
  "\<exists>m' b' cv fam cn.
     add_dispatch_source ex_heap ex_model ex_dispatch_block = Inr (m', b') \<and>
     objs ex_dispatch_block = Some [13] \<and> distinct (map (\<lambda>x. uid (ex_heap x)) [13]) \<and>
     ''wind'' = uid (ex_heap 13) \<and> (''wind'', 2) \<in> set (indexset ex_dispatch_block) \<and>
     11 \<in> set (outputs (ex_heap 13)) \<and> 2 \<in> set (timesteps ex_model) \<and>
     O_dict ex_model ''wind'' = Some [''bel''] \<and>
     flow_ub_at m' (''wind'', ''bel'', 2) 750000 \<and>
     curtailment_var b' = Some cv \<and>
     map_of cv (''wind'', 2) = Some \<lparr>v_val = None, v_fixed = False, v_lb = Some 0, v_ub = None\<rparr> \<and>
     curtailment b' = Some fam \<and> map_of fam (''wind'', 2) = Some cn \<and>
     (\<forall>\<rho>. sat \<rho> cn \<longleftrightarrow>
         \<rho> (Curtailment_var ''wind'' 2) = 750000 - \<rho> (W ''wind'' ''bel'' 2))"
proof -
  have "\<not> isl (add_dispatch_source ex_heap ex_model ex_dispatch_block)"
    by code_simp
  then obtain m' b' where run: "add_dispatch_source ex_heap ex_model ex_dispatch_block = Inr (m', b')"
    by (cases "add_dispatch_source ex_heap ex_model ex_dispatch_block") auto
  have os: "objs ex_dispatch_block = Some [13]" "13 \<in> set [13 :: nat]"
    "distinct (map (\<lambda>x. uid (ex_heap x)) [13])"
    by (simp_all add: ex_dispatch_block_def block0_def)
  have e: "''wind'' = uid (ex_heap 13)" "(''wind'', 2) \<in> set (indexset ex_dispatch_block)"
    by (simp_all add: ex_heap_def entity0_def ex_dispatch_block_def block0_def)
  have ou: "11 \<in> set (outputs (ex_heap 13))"
    by (simp add: ex_heap_def entity0_def)
  have t: "2 \<in> set (timesteps ex_model)"
    by (simp add: ex_model_def)
  have O: "O_dict ex_model ''wind'' = Some [''bel'']"
    by (simp add: ex_model_def)
  have vals: "uid (ex_heap 11) = ''bel''" "val (ex_heap 13) ! 2 = 3 / 4"
    by (simp_all add: ex_heap_def entity0_def)
  have c: "getitem (out_max (ex_heap 13)) (KInt 0) = Inr 1000000"
    by (simp add: ex_heap_def entity0_def list_get_def)
  from dispatch_source [OF run os e ou t O]
  obtain cv fam cn where ub: "flow_ub_at m' (''wind'', ''bel'', 2) 750000"
    and cv: "curtailment_var b' = Some cv"
      "map_of cv (''wind'', 2) = Some \<lparr>v_val = None, v_fixed = False, v_lb = Some 0, v_ub = None\<rparr>"
    and fam: "curtailment b' = Some fam" "map_of fam (''wind'', 2) = Some cn"
    and sem: "\<forall>\<rho>. sat \<rho> cn \<longleftrightarrow>
         \<rho> (Curtailment_var ''wind'' 2) = 750000 - \<rho> (W ''wind'' ''bel'' 2)"
    unfolding vals c list.sel by auto
  show ?thesis
    by (intro exI conjI) (rule run os(1) os(3) e ou t O ub cv fam sem)+
qed

section \<open>Output gradient limits\<close>

lemma grad_bound_rule_attr:
  "distinct (map (\<lambda>x. uid (h x)) os) \<Longrightarrow> r \<in> set os \<Longrightarrow>
   grad_bound_rule (attr_dict h os f) (uid (h r), t) = Inr (Some (f (h r)))"
  by (simp add: grad_bound_rule_def attr_dict_get)

lemma grad_pos_family:
  assumes gv: "Var_nonneg (grad_bound_rule (attr_dict h os grad_pos)) idx = Inr gv"
    and fam: "Constraint (grad_pos_calc_rule m gv) idx = Inr fam"
    and os: "r \<in> set os" "distinct (map (\<lambda>x. uid (h x)) os)"
    and e: "e = uid (h r)" "(e, t) \<in> set idx"
    and O: "O_dict m e = Some outs"
  shows "map_of gv (e, t) =
           Some \<lparr>v_val = None, v_fixed = False, v_lb = Some 0, v_ub = Some (grad_pos (h r))\<rparr>"
    and "0 < t \<Longrightarrow> \<exists>c. map_of fam (e, t) = Some c \<and>
           (\<forall>\<rho>. sat \<rho> c \<longleftrightarrow>
              \<rho> (W e (hd outs) t) - \<rho> (W e (hd outs) (t - 1)) \<le> \<rho> (Grad_pos_var e t))"
    and "map_of fam (e', 0) = None"
proof -
  from Var_nonneg_lookup [OF gv e(2)]
  show "map_of gv (e, t) =
           Some \<lparr>v_val = None, v_fixed = False, v_lb = Some 0, v_ub = Some (grad_pos (h r))\<rparr>"
    by (auto simp: e(1) grad_bound_rule_attr [OF os(2,1)])
  have "grad_pos_calc_rule m gv (e', 0) = Inr Skip"
    by (simp add: grad_pos_calc_rule_def)
  then show "map_of fam (e', 0) = None"
    using Constraint_lookup [OF fam, of "(e', 0)"] by simp
  assume t: "0 < t"
  from Constraint_rule_ok [OF fam e(2)] obtain rr
    where rr: "grad_pos_calc_rule m gv (e, t) = Inr rr"
    by blast
  have look: "map_of fam (e, t) = (case rr of Relation c \<Rightarrow> Some c | _ \<Rightarrow> None)"
    using Constraint_lookup [OF fam, of "(e, t)"] e(2) rr by simp
  from rr t have "ebind (w_out m e 0 t) (\<lambda>w1.
       ebind (w_out m e 0 (t - 1)) (\<lambda>w0.
       ebind (var_ref (map_of gv) (e, t) (Grad_pos_var e t)) (\<lambda>rhs.
       Inr (py_le (py_sub w1 w0) rhs)))) = Inr rr"
    by (simp add: grad_pos_calc_rule_def)
  then obtain w1 where w1: "w_out m e 0 t = Inr w1"
    and r1: "ebind (w_out m e 0 (t - 1)) (\<lambda>w0.
       ebind (var_ref (map_of gv) (e, t) (Grad_pos_var e t)) (\<lambda>rhs.
       Inr (py_le (py_sub w1 w0) rhs))) = Inr rr"
    by (rule ebind_InrE)
  from r1 obtain w0 where w0: "w_out m e 0 (t - 1) = Inr w0"
    and r2: "ebind (var_ref (map_of gv) (e, t) (Grad_pos_var e t)) (\<lambda>rhs.
       Inr (py_le (py_sub w1 w0) rhs)) = Inr rr"
    by (rule ebind_InrE)
  from r2 obtain rhs where rhs: "var_ref (map_of gv) (e, t) (Grad_pos_var e t) = Inr rhs"
    and r3: "Inr (py_le (py_sub w1 w0) rhs) = (Inr rr :: error + rule_result)"
    by (rule ebind_InrE)
  have w1_eq: "w1 = Var (W e (hd outs) t)" using w1 O by (rule w_out_Inr)
  have w0_eq: "w0 = Var (W e (hd outs) (t - 1))" using w0 O by (rule w_out_Inr)
  have rhs_eq: "rhs = Var (Grad_pos_var e t)" using rhs by (rule var_ref_Inr)
  have "rr = Relation (Le (Sub (Var (W e (hd outs) t)) (Var (W e (hd outs) (t - 1))))
                          (Var (Grad_pos_var e t)))"
    using r3 by (simp add: w1_eq w0_eq rhs_eq py_le_def py_sub_def)
  then show "\<exists>c. map_of fam (e, t) = Some c \<and>
           (\<forall>\<rho>. sat \<rho> c \<longleftrightarrow>
              \<rho> (W e (hd outs) t) - \<rho> (W e (hd outs) (t - 1)) \<le> \<rho> (Grad_pos_var e t))"
    using look by simp
qed

lemma grad_neg_family:
  assumes gv: "Var_nonneg (grad_bound_rule (attr_dict h os grad_neg)) idx = Inr gv"
    and fam: "Constraint (grad_neg_calc_rule m gv) idx = Inr fam"
    and os: "r \<in> set os" "distinct (map (\<lambda>x. uid (h x)) os)"
    and e: "e = uid (h r)" "(e, t) \<in> set idx"
    and O: "O_dict m e = Some outs"
  shows "map_of gv (e, t) =
           Some \<lparr>v_val = None, v_fixed = False, v_lb = Some 0, v_ub = Some (grad_neg (h r))\<rparr>"
    and "0 < t \<Longrightarrow> \<exists>c. map_of fam (e, t) = Some c \<and>
           (\<forall>\<rho>. sat \<rho> c \<longleftrightarrow>
              \<rho> (W e (hd outs) (t - 1)) - \<rho> (W e (hd outs) t) \<le> \<rho> (Grad_neg_var e t))"
    and "map_of fam (e', 0) = None"
proof -
  from Var_nonneg_lookup [OF gv e(2)]
  show "map_of gv (e, t) =
           Some \<lparr>v_val = None, v_fixed = False, v_lb = Some 0, v_ub = Some (grad_neg (h r))\<rparr>"
    by (auto simp: e(1) grad_bound_rule_attr [OF os(2,1)])
  have "grad_neg_calc_rule m gv (e', 0) = Inr Skip"
    by (simp add: grad_neg_calc_rule_def)
  then show "map_of fam (e', 0) = None"
    using Constraint_lookup [OF fam, of "(e', 0)"] by simp
  assume t: "0 < t"
  from Constraint_rule_ok [OF fam e(2)] obtain rr
    where rr: "grad_neg_calc_rule m gv (e, t) = Inr rr"
    by blast
  have look: "map_of fam (e, t) = (case rr of Relation c \<Rightarrow> Some c | _ \<Rightarrow> None)"
    using Constraint_lookup [OF fam, of "(e, t)"] e(2) rr by simp
  from rr t have "ebind (w_out m e 0 (t - 1)) (\<lambda>w0.
       ebind (w_out m e 0 t) (\<lambda>w1.
       ebind (var_ref (map_of gv) (e, t) (Grad_neg_var e t)) (\<lambda>rhs.
       Inr (py_le (py_sub w0 w1) rhs)))) = Inr rr"
    by (simp add: grad_neg_calc_rule_def)
  then obtain w0 where w0: "w_out m e 0 (t - 1) = Inr w0"
    and r1: "ebind (w_out m e 0 t) (\<lambda>w1.
       ebind (var_ref (map_of gv) (e, t) (Grad_neg_var e t)) (\<lambda>rhs.
       Inr (py_le (py_sub w0 w1) rhs))) = Inr rr"
    by (rule ebind_InrE)
  from r1 obtain w1 where w1: "w_out m e 0 t = Inr w1"
    and r2: "ebind (var_ref (map_of gv) (e, t) (Grad_neg_var e t)) (\<lambda>rhs.
       Inr (py_le (py_sub w0 w1) rhs)) = Inr rr"
    by (rule ebind_InrE)
  from r2 obtain rhs where rhs: "var_ref (map_of gv) (e, t) (Grad_neg_var e t) = Inr rhs"
    and r3: "Inr (py_le (py_sub w0 w1) rhs) = (Inr rr :: error + rule_result)"
    by (rule ebind_InrE)
  have w1_eq: "w1 = Var (W e (hd outs) t)" using w1 O by (rule w_out_Inr)
  have w0_eq: "w0 = Var (W e (hd outs) (t - 1))" using w0 O by (rule w_out_Inr)
  have rhs_eq: "rhs = Var (Grad_neg_var e t)" using rhs by (rule var_ref_Inr)
  have "rr = Relation (Le (Sub (Var (W e (hd outs) (t - 1))) (Var (W e (hd outs) t)))
                          (Var (Grad_neg_var e t)))"
    using r3 by (simp add: w1_eq w0_eq rhs_eq py_le_def py_sub_def)
  then show "\<exists>c. map_of fam (e, t) = Some c \<and>
           (\<forall>\<rho>. sat \<rho> c \<longleftrightarrow>
              \<rho> (W e (hd outs) (t - 1)) - \<rho> (W e (hd outs) t) \<le> \<rho> (Grad_neg_var e t))"
    using look by simp
qed

text \<open>The two halves of the generator, lines 677 to 684 and 687 to 694.\<close>

lemma gradient_halves:
  assumes run: "add_output_gradient_calc h m b d = Inr (m', b')"
    and os: "objs b = Some os" "os \<noteq> []"
  shows "\<exists>b1.
     (if d = ''positive'' \<or> d = ''both'' then
        \<exists>gv fam. Var_nonneg (grad_bound_rule (attr_dict h os grad_pos)) (indexset b) = Inr gv \<and>
          Constraint (grad_pos_calc_rule m gv) (indexset b) = Inr fam \<and>
          b1 = b\<lparr>grad_pos_var := Some gv, grad_pos_calc := Some fam\<rparr>
      else b1 = b) \<and>
     (if d = ''negative'' \<or> d = ''both'' then
        \<exists>gv fam. Var_nonneg (grad_bound_rule (attr_dict h os grad_neg)) (indexset b) = Inr gv \<and>
          Constraint (grad_neg_calc_rule m gv) (indexset b) = Inr fam \<and>
          b' = b1\<lparr>grad_neg_var := Some gv, grad_neg_calc := Some fam\<rparr>
      else b' = b1)"
proof -
  have chk: "checked_objs b = Inr os"
    using os by (simp add: checked_objs_def)
  let ?P = "if d = ''positive'' \<or> d = ''both'' then
              let grad_pos_d = attr_dict h os grad_pos
              in ebind (Var_nonneg (grad_bound_rule grad_pos_d) (indexset b)) (\<lambda>gv.
                 ebind (Constraint (grad_pos_calc_rule m gv) (indexset b)) (\<lambda>fam.
                 Inr (b\<lparr>grad_pos_var := Some gv, grad_pos_calc := Some fam\<rparr>)))
            else Inr b"
  let ?N = "\<lambda>b1. if d = ''negative'' \<or> d = ''both'' then
              let grad_neg_d = attr_dict h os grad_neg
              in ebind (Var_nonneg (grad_bound_rule grad_neg_d) (indexset b1)) (\<lambda>gv.
                 ebind (Constraint (grad_neg_calc_rule m gv) (indexset b1)) (\<lambda>fam.
                 Inr (b1\<lparr>grad_neg_var := Some gv, grad_neg_calc := Some fam\<rparr>)))
            else Inr b1"
  from run have "ebind ?P (\<lambda>b1. ebind (?N b1) (\<lambda>b2. Inr (m, b2))) = Inr (m', b')"
    unfolding add_output_gradient_calc_def chk ebind_Inr .
  then obtain b1 where p: "?P = Inr b1" and r1: "ebind (?N b1) (\<lambda>b2. Inr (m, b2)) = Inr (m', b')"
    by (rule ebind_InrE)
  from r1 obtain b2 where n: "?N b1 = Inr b2"
    and res: "Inr (m, b2) = (Inr (m', b') :: error + model \<times> block)"
    by (rule ebind_InrE)
  from res have b2: "b2 = b'" by simp
  have P: "if d = ''positive'' \<or> d = ''both'' then
        \<exists>gv fam. Var_nonneg (grad_bound_rule (attr_dict h os grad_pos)) (indexset b) = Inr gv \<and>
          Constraint (grad_pos_calc_rule m gv) (indexset b) = Inr fam \<and>
          b1 = b\<lparr>grad_pos_var := Some gv, grad_pos_calc := Some fam\<rparr>
      else b1 = b"
  proof (cases "d = ''positive'' \<or> d = ''both''")
    case True
    with p have "ebind (Var_nonneg (grad_bound_rule (attr_dict h os grad_pos)) (indexset b)) (\<lambda>gv.
                 ebind (Constraint (grad_pos_calc_rule m gv) (indexset b)) (\<lambda>fam.
                 Inr (b\<lparr>grad_pos_var := Some gv, grad_pos_calc := Some fam\<rparr>))) = Inr b1"
      by (simp add: Let_def)
    then obtain gv where gv: "Var_nonneg (grad_bound_rule (attr_dict h os grad_pos)) (indexset b) = Inr gv"
      and q: "ebind (Constraint (grad_pos_calc_rule m gv) (indexset b)) (\<lambda>fam.
                 Inr (b\<lparr>grad_pos_var := Some gv, grad_pos_calc := Some fam\<rparr>)) = Inr b1"
      by (rule ebind_InrE)
    from q obtain fam where fam: "Constraint (grad_pos_calc_rule m gv) (indexset b) = Inr fam"
      and "Inr (b\<lparr>grad_pos_var := Some gv, grad_pos_calc := Some fam\<rparr>) = (Inr b1 :: error + block)"
      by (rule ebind_InrE)
    then have "b1 = b\<lparr>grad_pos_var := Some gv, grad_pos_calc := Some fam\<rparr>" by simp
    with gv fam True show ?thesis by auto
  next
    case False
    with p show ?thesis by simp
  qed
  have ix: "indexset b1 = indexset b"
    using P by (auto split: if_splits)
  have N: "if d = ''negative'' \<or> d = ''both'' then
        \<exists>gv fam. Var_nonneg (grad_bound_rule (attr_dict h os grad_neg)) (indexset b) = Inr gv \<and>
          Constraint (grad_neg_calc_rule m gv) (indexset b) = Inr fam \<and>
          b' = b1\<lparr>grad_neg_var := Some gv, grad_neg_calc := Some fam\<rparr>
      else b' = b1"
  proof (cases "d = ''negative'' \<or> d = ''both''")
    case True
    with n have "ebind (Var_nonneg (grad_bound_rule (attr_dict h os grad_neg)) (indexset b)) (\<lambda>gv.
                 ebind (Constraint (grad_neg_calc_rule m gv) (indexset b)) (\<lambda>fam.
                 Inr (b1\<lparr>grad_neg_var := Some gv, grad_neg_calc := Some fam\<rparr>))) = Inr b2"
      by (simp add: Let_def ix)
    then obtain gv where gv: "Var_nonneg (grad_bound_rule (attr_dict h os grad_neg)) (indexset b) = Inr gv"
      and q: "ebind (Constraint (grad_neg_calc_rule m gv) (indexset b)) (\<lambda>fam.
                 Inr (b1\<lparr>grad_neg_var := Some gv, grad_neg_calc := Some fam\<rparr>)) = Inr b2"
      by (rule ebind_InrE)
    from q obtain fam where fam: "Constraint (grad_neg_calc_rule m gv) (indexset b) = Inr fam"
      and "Inr (b1\<lparr>grad_neg_var := Some gv, grad_neg_calc := Some fam\<rparr>) = (Inr b2 :: error + block)"
      by (rule ebind_InrE)
    then have "b' = b1\<lparr>grad_neg_var := Some gv, grad_neg_calc := Some fam\<rparr>" by (simp add: b2)
    with gv fam True show ?thesis by auto
  next
    case False
    with n b2 show ?thesis by simp
  qed
  from P N show ?thesis by blast
qed

text \<open>
  Claim C9. Whenever \<^verbatim>\<open>add_output_gradient_calc\<close> completes, for an entity \<open>r\<close> of the
  block with uid \<open>e\<close> and an index \<open>(e, t)\<close>: when the direction is \<^verbatim>\<open>positive\<close> or
  \<^verbatim>\<open>both\<close>, the variable \<^verbatim>\<open>GRADPOS(e,t)\<close> is declared with lower bound 0 and upper
  bound \<^verbatim>\<open>grad_pos\<close> of the entity, for \<open>t > 0\<close> the constraint at \<open>(e, t)\<close> holds exactly
  when \<^verbatim>\<open>W(e,O[e][0],t) - W(e,O[e][0],t-1) <= GRADPOS(e,t)\<close>, and no constraint exists
  at timestep 0; symmetrically for \<^verbatim>\<open>negative\<close> or \<^verbatim>\<open>both\<close> with
  \<^verbatim>\<open>W(e,O[e][0],t-1) - W(e,O[e][0],t) <= GRADNEG(e,t)\<close> and the bound \<^verbatim>\<open>grad_neg\<close>; and for
  a direction that is not selected, the variable and the constraint family of that
  direction are left as they were in the block, so neither is declared.
\<close>

theorem output_gradient:
  assumes run: "add_output_gradient_calc h m b d = Inr (m', b')"
    and os: "objs b = Some os" "r \<in> set os" "distinct (map (\<lambda>x. uid (h x)) os)"
    and e: "e = uid (h r)" "(e, t) \<in> set (indexset b)"
    and O: "O_dict m e = Some outs"
  shows "(d = ''positive'' \<or> d = ''both'' \<longrightarrow>
           (\<exists>gv fam. grad_pos_var b' = Some gv \<and> grad_pos_calc b' = Some fam \<and>
              map_of gv (e, t) =
                Some \<lparr>v_val = None, v_fixed = False, v_lb = Some 0, v_ub = Some (grad_pos (h r))\<rparr> \<and>
              (0 < t \<longrightarrow> (\<exists>c. map_of fam (e, t) = Some c \<and>
                 (\<forall>\<rho>. sat \<rho> c \<longleftrightarrow>
                    \<rho> (W e (hd outs) t) - \<rho> (W e (hd outs) (t - 1)) \<le> \<rho> (Grad_pos_var e t)))) \<and>
              (\<forall>e'. map_of fam (e', 0) = None))) \<and>
         (d = ''negative'' \<or> d = ''both'' \<longrightarrow>
           (\<exists>gv fam. grad_neg_var b' = Some gv \<and> grad_neg_calc b' = Some fam \<and>
              map_of gv (e, t) =
                Some \<lparr>v_val = None, v_fixed = False, v_lb = Some 0, v_ub = Some (grad_neg (h r))\<rparr> \<and>
              (0 < t \<longrightarrow> (\<exists>c. map_of fam (e, t) = Some c \<and>
                 (\<forall>\<rho>. sat \<rho> c \<longleftrightarrow>
                    \<rho> (W e (hd outs) (t - 1)) - \<rho> (W e (hd outs) t) \<le> \<rho> (Grad_neg_var e t)))) \<and>
              (\<forall>e'. map_of fam (e', 0) = None))) \<and>
         (d \<noteq> ''positive'' \<and> d \<noteq> ''both'' \<longrightarrow>
            grad_pos_var b' = grad_pos_var b \<and> grad_pos_calc b' = grad_pos_calc b) \<and>
         (d \<noteq> ''negative'' \<and> d \<noteq> ''both'' \<longrightarrow>
            grad_neg_var b' = grad_neg_var b \<and> grad_neg_calc b' = grad_neg_calc b)"
    (is "(?A1 \<longrightarrow> ?B1) \<and> (?A2 \<longrightarrow> ?B2) \<and> (?A3 \<longrightarrow> ?B3) \<and> (?A4 \<longrightarrow> ?B4)")
proof -
  have ne: "os \<noteq> []" using os(2) by auto
  from gradient_halves [OF run os(1) ne] obtain b1
    where P: "if d = ''positive'' \<or> d = ''both'' then
        \<exists>gv fam. Var_nonneg (grad_bound_rule (attr_dict h os grad_pos)) (indexset b) = Inr gv \<and>
          Constraint (grad_pos_calc_rule m gv) (indexset b) = Inr fam \<and>
          b1 = b\<lparr>grad_pos_var := Some gv, grad_pos_calc := Some fam\<rparr>
      else b1 = b"
      and N: "if d = ''negative'' \<or> d = ''both'' then
        \<exists>gv fam. Var_nonneg (grad_bound_rule (attr_dict h os grad_neg)) (indexset b) = Inr gv \<and>
          Constraint (grad_neg_calc_rule m gv) (indexset b) = Inr fam \<and>
          b' = b1\<lparr>grad_neg_var := Some gv, grad_neg_calc := Some fam\<rparr>
      else b' = b1"
    by blast
  have keep_pos: "grad_pos_var b' = grad_pos_var b1" "grad_pos_calc b' = grad_pos_calc b1"
    using N by (auto split: if_splits)
  have keep_neg: "grad_neg_var b1 = grad_neg_var b" "grad_neg_calc b1 = grad_neg_calc b"
    using P by (auto split: if_splits)
  have pos: "\<exists>gv fam. grad_pos_var b' = Some gv \<and> grad_pos_calc b' = Some fam \<and>
              map_of gv (e, t) =
                Some \<lparr>v_val = None, v_fixed = False, v_lb = Some 0, v_ub = Some (grad_pos (h r))\<rparr> \<and>
              (0 < t \<longrightarrow> (\<exists>c. map_of fam (e, t) = Some c \<and>
                 (\<forall>\<rho>. sat \<rho> c \<longleftrightarrow>
                    \<rho> (W e (hd outs) t) - \<rho> (W e (hd outs) (t - 1)) \<le> \<rho> (Grad_pos_var e t)))) \<and>
              (\<forall>e'. map_of fam (e', 0) = None)"
    if sel: "d = ''positive'' \<or> d = ''both''"
  proof -
    from P sel obtain gv fam
      where gv: "Var_nonneg (grad_bound_rule (attr_dict h os grad_pos)) (indexset b) = Inr gv"
        and fam: "Constraint (grad_pos_calc_rule m gv) (indexset b) = Inr fam"
        and b1: "b1 = b\<lparr>grad_pos_var := Some gv, grad_pos_calc := Some fam\<rparr>"
      by auto
    note f = grad_pos_family [OF gv fam os(2,3) e O]
    have a: "grad_pos_var b' = Some gv" "grad_pos_calc b' = Some fam"
      using keep_pos by (simp_all add: b1)
    have c: "0 < t \<longrightarrow> (\<exists>c. map_of fam (e, t) = Some c \<and>
                 (\<forall>\<rho>. sat \<rho> c \<longleftrightarrow>
                    \<rho> (W e (hd outs) t) - \<rho> (W e (hd outs) (t - 1)) \<le> \<rho> (Grad_pos_var e t)))"
      using f(2) by blast
    have s: "\<forall>e'. map_of fam (e', 0) = None"
      using f(3) by blast
    show ?thesis
      by (intro exI conjI) (rule a f(1) c s)+
  qed
  have neg: "\<exists>gv fam. grad_neg_var b' = Some gv \<and> grad_neg_calc b' = Some fam \<and>
              map_of gv (e, t) =
                Some \<lparr>v_val = None, v_fixed = False, v_lb = Some 0, v_ub = Some (grad_neg (h r))\<rparr> \<and>
              (0 < t \<longrightarrow> (\<exists>c. map_of fam (e, t) = Some c \<and>
                 (\<forall>\<rho>. sat \<rho> c \<longleftrightarrow>
                    \<rho> (W e (hd outs) (t - 1)) - \<rho> (W e (hd outs) t) \<le> \<rho> (Grad_neg_var e t)))) \<and>
              (\<forall>e'. map_of fam (e', 0) = None)"
    if sel: "d = ''negative'' \<or> d = ''both''"
  proof -
    from N sel obtain gv fam
      where gv: "Var_nonneg (grad_bound_rule (attr_dict h os grad_neg)) (indexset b) = Inr gv"
        and fam: "Constraint (grad_neg_calc_rule m gv) (indexset b) = Inr fam"
        and b': "b' = b1\<lparr>grad_neg_var := Some gv, grad_neg_calc := Some fam\<rparr>"
      by auto
    note f = grad_neg_family [OF gv fam os(2,3) e O]
    have a: "grad_neg_var b' = Some gv" "grad_neg_calc b' = Some fam"
      by (simp_all add: b')
    have c: "0 < t \<longrightarrow> (\<exists>c. map_of fam (e, t) = Some c \<and>
                 (\<forall>\<rho>. sat \<rho> c \<longleftrightarrow>
                    \<rho> (W e (hd outs) (t - 1)) - \<rho> (W e (hd outs) t) \<le> \<rho> (Grad_neg_var e t)))"
      using f(2) by blast
    have s: "\<forall>e'. map_of fam (e', 0) = None"
      using f(3) by blast
    show ?thesis
      by (intro exI conjI) (rule a f(1) c s)+
  qed
  have npos: "grad_pos_var b' = grad_pos_var b \<and> grad_pos_calc b' = grad_pos_calc b"
    if "d \<noteq> ''positive'' \<and> d \<noteq> ''both''"
    using that P keep_pos by simp
  have nneg: "grad_neg_var b' = grad_neg_var b \<and> grad_neg_calc b' = grad_neg_calc b"
    if "d \<noteq> ''negative'' \<and> d \<noteq> ''both''"
    using that N keep_neg by simp
  have i1: "?A1 \<longrightarrow> ?B1" by (rule impI) (rule pos)
  have i2: "?A2 \<longrightarrow> ?B2" by (rule impI) (rule neg)
  have i3: "?A3 \<longrightarrow> ?B3" by (rule impI) (rule npos)
  have i4: "?A4 \<longrightarrow> ?B4" by (rule impI) (rule nneg)
  show ?thesis
    by (rule conjI i1 i2 i3 i4)+
qed

text \<open>
  The wind source of the example, with \<^verbatim>\<open>grad_pos = 300\<close> and \<^verbatim>\<open>grad_neg = 200\<close>, once
  for the positive and once for the negative direction, at timestep 2.
\<close>

theorem output_gradient_witness:
  "(\<exists>m' b' gv fam c.
      add_output_gradient_calc ex_heap ex_model ex_source_block ''positive'' = Inr (m', b') \<and>
      objs ex_source_block = Some [13] \<and> distinct (map (\<lambda>x. uid (ex_heap x)) [13]) \<and>
      ''wind'' = uid (ex_heap 13) \<and> (''wind'', 2) \<in> set (indexset ex_source_block) \<and>
      O_dict ex_model ''wind'' = Some [''bel''] \<and>
      grad_pos_var b' = Some gv \<and> grad_pos_calc b' = Some fam \<and>
      map_of gv (''wind'', 2) =
        Some \<lparr>v_val = None, v_fixed = False, v_lb = Some 0, v_ub = Some 300\<rparr> \<and>
      map_of fam (''wind'', 2) = Some c \<and>
      (\<forall>\<rho>. sat \<rho> c \<longleftrightarrow>
         \<rho> (W ''wind'' ''bel'' 2) - \<rho> (W ''wind'' ''bel'' 1) \<le> \<rho> (Grad_pos_var ''wind'' 2)) \<and>
      map_of fam (''wind'', 0) = None \<and>
      grad_neg_var b' = None \<and> grad_neg_calc b' = None) \<and>
   (\<exists>m' b' gv fam c.
      add_output_gradient_calc ex_heap ex_model ex_source_block ''negative'' = Inr (m', b') \<and>
      grad_neg_var b' = Some gv \<and> grad_neg_calc b' = Some fam \<and>
      map_of gv (''wind'', 2) =
        Some \<lparr>v_val = None, v_fixed = False, v_lb = Some 0, v_ub = Some 200\<rparr> \<and>
      map_of fam (''wind'', 2) = Some c \<and>
      (\<forall>\<rho>. sat \<rho> c \<longleftrightarrow>
         \<rho> (W ''wind'' ''bel'' 1) - \<rho> (W ''wind'' ''bel'' 2) \<le> \<rho> (Grad_neg_var ''wind'' 2)) \<and>
      map_of fam (''wind'', 0) = None \<and>
      grad_pos_var b' = None \<and> grad_pos_calc b' = None)"
proof (rule conjI)
  have os: "objs ex_source_block = Some [13]" "13 \<in> set [13 :: nat]"
    "distinct (map (\<lambda>x. uid (ex_heap x)) [13])"
    by (simp_all add: ex_source_block_def block0_def)
  have e: "''wind'' = uid (ex_heap 13)" "(''wind'', 2) \<in> set (indexset ex_source_block)"
    by (simp_all add: ex_heap_def entity0_def ex_source_block_def block0_def)
  have O: "O_dict ex_model ''wind'' = Some [''bel'']"
    by (simp add: ex_model_def)
  have vals: "grad_pos (ex_heap 13) = 300" "grad_neg (ex_heap 13) = 200"
    by (simp_all add: ex_heap_def entity0_def)
  have none: "grad_pos_var ex_source_block = None" "grad_pos_calc ex_source_block = None"
    "grad_neg_var ex_source_block = None" "grad_neg_calc ex_source_block = None"
    by (simp_all add: ex_source_block_def block0_def)
  have one: "(2::nat) - 1 = 1" by simp
  have t: "0 < (2::nat)" by simp
  have dp: "''positive'' = ''positive'' \<or> ''positive'' = ''both''"
    "''positive'' \<noteq> ''negative'' \<and> ''positive'' \<noteq> ''both''"
    by simp_all
  have dn: "''negative'' = ''negative'' \<or> ''negative'' = ''both''"
    "''negative'' \<noteq> ''positive'' \<and> ''negative'' \<noteq> ''both''"
    by simp_all
  {
    have "\<not> isl (add_output_gradient_calc ex_heap ex_model ex_source_block ''positive'')"
      by code_simp
    then obtain m' b' where run:
      "add_output_gradient_calc ex_heap ex_model ex_source_block ''positive'' = Inr (m', b')"
      by (cases "add_output_gradient_calc ex_heap ex_model ex_source_block ''positive''") auto
    note inst = output_gradient [OF run os e O, unfolded vals none list.sel one]
    note inst1 = inst [THEN conjunct1, THEN mp, OF dp(1)]
    note inst4 = inst [THEN conjunct2, THEN conjunct2, THEN conjunct2, THEN mp, OF dp(2)]
    from inst1 obtain gv fam where a: "grad_pos_var b' = Some gv" "grad_pos_calc b' = Some fam"
      "map_of gv (''wind'', 2) =
        Some \<lparr>v_val = None, v_fixed = False, v_lb = Some 0, v_ub = Some 300\<rparr>"
      and c0: "0 < (2::nat) \<longrightarrow> (\<exists>c. map_of fam (''wind'', 2) = Some c \<and>
         (\<forall>\<rho>. sat \<rho> c \<longleftrightarrow>
            \<rho> (W ''wind'' ''bel'' 2) - \<rho> (W ''wind'' ''bel'' 1) \<le> \<rho> (Grad_pos_var ''wind'' 2)))"
      and s0: "\<forall>e'. map_of fam (e', 0) = None"
      by (elim exE conjE) (rule that)
    from c0 [THEN mp, OF t] obtain c where c: "map_of fam (''wind'', 2) = Some c"
      "\<forall>\<rho>. sat \<rho> c \<longleftrightarrow>
            \<rho> (W ''wind'' ''bel'' 2) - \<rho> (W ''wind'' ''bel'' 1) \<le> \<rho> (Grad_pos_var ''wind'' 2)"
      by (elim exE conjE) (rule that)
    have s: "map_of fam (''wind'', 0) = None" by (rule s0 [THEN spec])
    have n: "grad_neg_var b' = None" "grad_neg_calc b' = None"
      by (rule inst4 [THEN conjunct1], rule inst4 [THEN conjunct2])
    have "\<exists>m' b' gv fam c.
      add_output_gradient_calc ex_heap ex_model ex_source_block ''positive'' = Inr (m', b') \<and>
      objs ex_source_block = Some [13] \<and> distinct (map (\<lambda>x. uid (ex_heap x)) [13]) \<and>
      ''wind'' = uid (ex_heap 13) \<and> (''wind'', 2) \<in> set (indexset ex_source_block) \<and>
      O_dict ex_model ''wind'' = Some [''bel''] \<and>
      grad_pos_var b' = Some gv \<and> grad_pos_calc b' = Some fam \<and>
      map_of gv (''wind'', 2) =
        Some \<lparr>v_val = None, v_fixed = False, v_lb = Some 0, v_ub = Some 300\<rparr> \<and>
      map_of fam (''wind'', 2) = Some c \<and>
      (\<forall>\<rho>. sat \<rho> c \<longleftrightarrow>
         \<rho> (W ''wind'' ''bel'' 2) - \<rho> (W ''wind'' ''bel'' 1) \<le> \<rho> (Grad_pos_var ''wind'' 2)) \<and>
      map_of fam (''wind'', 0) = None \<and>
      grad_neg_var b' = None \<and> grad_neg_calc b' = None"
      by (intro exI conjI) (rule run os(1) os(3) e O a c s n)+
  }
  then show "\<exists>m' b' gv fam c.
      add_output_gradient_calc ex_heap ex_model ex_source_block ''positive'' = Inr (m', b') \<and>
      objs ex_source_block = Some [13] \<and> distinct (map (\<lambda>x. uid (ex_heap x)) [13]) \<and>
      ''wind'' = uid (ex_heap 13) \<and> (''wind'', 2) \<in> set (indexset ex_source_block) \<and>
      O_dict ex_model ''wind'' = Some [''bel''] \<and>
      grad_pos_var b' = Some gv \<and> grad_pos_calc b' = Some fam \<and>
      map_of gv (''wind'', 2) =
        Some \<lparr>v_val = None, v_fixed = False, v_lb = Some 0, v_ub = Some 300\<rparr> \<and>
      map_of fam (''wind'', 2) = Some c \<and>
      (\<forall>\<rho>. sat \<rho> c \<longleftrightarrow>
         \<rho> (W ''wind'' ''bel'' 2) - \<rho> (W ''wind'' ''bel'' 1) \<le> \<rho> (Grad_pos_var ''wind'' 2)) \<and>
      map_of fam (''wind'', 0) = None \<and>
      grad_neg_var b' = None \<and> grad_neg_calc b' = None" .
  {
    have "\<not> isl (add_output_gradient_calc ex_heap ex_model ex_source_block ''negative'')"
      by code_simp
    then obtain m' b' where run:
      "add_output_gradient_calc ex_heap ex_model ex_source_block ''negative'' = Inr (m', b')"
      by (cases "add_output_gradient_calc ex_heap ex_model ex_source_block ''negative''") auto
    note inst = output_gradient [OF run os e O, unfolded vals none list.sel one]
    note inst2 = inst [THEN conjunct2, THEN conjunct1, THEN mp, OF dn(1)]
    note inst3 = inst [THEN conjunct2, THEN conjunct2, THEN conjunct1, THEN mp, OF dn(2)]
    from inst2 obtain gv fam where a: "grad_neg_var b' = Some gv" "grad_neg_calc b' = Some fam"
      "map_of gv (''wind'', 2) =
        Some \<lparr>v_val = None, v_fixed = False, v_lb = Some 0, v_ub = Some 200\<rparr>"
      and c0: "0 < (2::nat) \<longrightarrow> (\<exists>c. map_of fam (''wind'', 2) = Some c \<and>
         (\<forall>\<rho>. sat \<rho> c \<longleftrightarrow>
            \<rho> (W ''wind'' ''bel'' 1) - \<rho> (W ''wind'' ''bel'' 2) \<le> \<rho> (Grad_neg_var ''wind'' 2)))"
      and s0: "\<forall>e'. map_of fam (e', 0) = None"
      by (elim exE conjE) (rule that)
    from c0 [THEN mp, OF t] obtain c where c: "map_of fam (''wind'', 2) = Some c"
      "\<forall>\<rho>. sat \<rho> c \<longleftrightarrow>
            \<rho> (W ''wind'' ''bel'' 1) - \<rho> (W ''wind'' ''bel'' 2) \<le> \<rho> (Grad_neg_var ''wind'' 2)"
      by (elim exE conjE) (rule that)
    have s: "map_of fam (''wind'', 0) = None" by (rule s0 [THEN spec])
    have n: "grad_pos_var b' = None" "grad_pos_calc b' = None"
      by (rule inst3 [THEN conjunct1], rule inst3 [THEN conjunct2])
    have "\<exists>m' b' gv fam c.
      add_output_gradient_calc ex_heap ex_model ex_source_block ''negative'' = Inr (m', b') \<and>
      grad_neg_var b' = Some gv \<and> grad_neg_calc b' = Some fam \<and>
      map_of gv (''wind'', 2) =
        Some \<lparr>v_val = None, v_fixed = False, v_lb = Some 0, v_ub = Some 200\<rparr> \<and>
      map_of fam (''wind'', 2) = Some c \<and>
      (\<forall>\<rho>. sat \<rho> c \<longleftrightarrow>
         \<rho> (W ''wind'' ''bel'' 1) - \<rho> (W ''wind'' ''bel'' 2) \<le> \<rho> (Grad_neg_var ''wind'' 2)) \<and>
      map_of fam (''wind'', 0) = None \<and>
      grad_pos_var b' = None \<and> grad_pos_calc b' = None"
      by (intro exI conjI) (rule run a c s n)+
  }
  then show "\<exists>m' b' gv fam c.
      add_output_gradient_calc ex_heap ex_model ex_source_block ''negative'' = Inr (m', b') \<and>
      grad_neg_var b' = Some gv \<and> grad_neg_calc b' = Some fam \<and>
      map_of gv (''wind'', 2) =
        Some \<lparr>v_val = None, v_fixed = False, v_lb = Some 0, v_ub = Some 200\<rparr> \<and>
      map_of fam (''wind'', 2) = Some c \<and>
      (\<forall>\<rho>. sat \<rho> c \<longleftrightarrow>
         \<rho> (W ''wind'' ''bel'' 1) - \<rho> (W ''wind'' ''bel'' 2) \<le> \<rho> (Grad_neg_var ''wind'' 2)) \<and>
      map_of fam (''wind'', 0) = None \<and>
      grad_pos_var b' = None \<and> grad_pos_calc b' = None" .
qed

end
